theory Spec2Isabelle
  imports Complex_Main "HOL-Library.Multiset"
begin

section \<open>GreenShield backend: account and report controllers\<close>

text \<open>
  A shallow embedding of the Express controllers of the GreenShield backend:
  \<^verbatim>\<open>signup\<close>, \<open>login\<close>, \<open>verifyOTP\<close>, \<open>resendOTP\<close> (the auth controller),
  \<open>generateOTP\<close> and \<open>sendOTPEmail\<close> (utils/emailService.js) and \<open>submitReport\<close>,
  \<open>getUserReports\<close>, \<open>getCommunityReports\<close>, \<open>getReportById\<close>, \<open>updateReport\<close>,
  \<open>deleteReport\<close> (the reports controller).

  A handler \<open>async (req, res) => ...\<close> becomes a function from the request and the
  persisted store to the response written to \<open>res\<close> and the store left behind.
  Everything a handler reads from outside (the clock, \<open>Math.random\<close>, the SMTP
  transport, \<open>process.env\<close>, a store call that rejects) is a field of the record
  \<open>world\<close>; the libraries bcryptjs and jsonwebtoken are the record \<open>collab\<close>.
\<close>

subsection \<open>JSON values and responses\<close>

datatype jval =
    JNull
  | JBool bool
  | JNum rat
  | JStr string
  | JArr "jval list"
  | JObj "(string \<times> jval) list"

record response =
  status :: nat
  body :: jval

text \<open>\<^verbatim>\<open>res.status(code).json({ success: false, message: msg })\<close>\<close>

definition failure :: "nat \<Rightarrow> string \<Rightarrow> response" where
  "failure code msg =
     \<lparr>status = code, body = JObj [(''success'', JBool False), (''message'', JStr msg)]\<rparr>"

text \<open>Lookup of a property of a JSON object; \<open>None\<close> is JavaScript's \<open>undefined\<close>.\<close>

fun jget :: "jval \<Rightarrow> string \<Rightarrow> jval option" where
  "jget (JObj kvs) k = map_of kvs k"
| "jget _ k = None"

fun jkeys :: "jval \<Rightarrow> string list" where
  "jkeys (JObj kvs) = map fst kvs"
| "jkeys _ = []"

subsection \<open>The persisted data\<close>

text \<open>
  Times are milliseconds since the epoch. The columns are the ones the controllers
  read and write (\<open>prisma/schema.prisma\<close> itself is not available).
\<close>

record user =
  u_id :: nat
  u_name :: string
  u_mobile :: string
  u_email :: string
  u_password :: string
  u_isEmailVerified :: bool
  u_otp :: "string option"
  u_otpExpiry :: "int option"
  u_points :: int
  u_role :: string
  u_createdAt :: int

record report =
  r_id :: int
  r_category :: string
  r_description :: string
  r_latitude :: rat
  r_longitude :: rat
  r_address :: string
  r_photo :: string
  r_status :: string
  r_userId :: nat
  r_createdAt :: int
  r_updatedAt :: int

record store =
  users :: "user list"
  reports :: "report list"
  next_user_id :: nat
  next_report_id :: int

subsection \<open>What a handler reads from outside\<close>

record world =
  now :: int
  store_now :: int
  random :: rat
  smtp_ok :: bool
  fault :: "nat option"
  NODE_ENV :: string
  JWT_SECRET :: string
  JWT_EXPIRES_IN :: string

record collab =
  bcrypt_hash :: "string \<Rightarrow> nat \<Rightarrow> string"
  bcrypt_compare :: "string \<Rightarrow> string \<Rightarrow> bool"
  jwt_sign :: "nat \<Rightarrow> string \<Rightarrow> string \<Rightarrow> string"

text \<open>
  \<open>bcrypt.hash(password, saltRounds)\<close>, \<open>bcrypt.compare(password, hash)\<close> and
  \<open>jwt.sign({ userId }, secret, { expiresIn })\<close> are functions that return; a
  configuration on which they throw (no \<open>JWT_SECRET\<close>) is not covered.

  \<open>now w\<close> is what the handler's own clock reads (\<open>Date.now()\<close>, \<open>new Date()\<close>)
  return; \<open>submitReport\<close> reads the clock twice in one object literal, and both reads
  are taken to return \<open>now w\<close>. \<open>store_now w\<close> is the instant that the store stamps on
  a user row it creates: the store does so while the awaited \<open>create\<close> runs, after
  the handler has read its clock, so the two instants are different fields.
  \<open>random w\<close> is the double that \<open>Math.random()\<close> returns, as the rational it
  denotes, and \<open>smtp_ok w\<close> tells whether \<open>transporter.sendMail\<close> resolves.
  \<open>fault w = Some k\<close>: the \<open>k\<close>-th awaited store call of the request (counted from 0)
  rejects, and the handler's \<open>catch\<close> answers 500. \<open>fault w = None\<close>: the store
  answers every call.
\<close>

definition rejects :: "world \<Rightarrow> nat \<Rightarrow> bool" where
  "rejects w k = (fault w = Some k)"

subsection \<open>utils/emailService.js\<close>

text \<open>\<open>Number.prototype.toString()\<close> on an integer: decimal digits, a sign if negative.\<close>

definition digit_char :: "nat \<Rightarrow> char" where
  "digit_char d = ''0123456789'' ! (d mod 10)"

fun show_nat :: "nat \<Rightarrow> string" where
  "show_nat n = (if n < 10 then [digit_char n] else show_nat (n div 10) @ [digit_char (n mod 10)])"

declare show_nat.simps [simp del]

definition toString :: "int \<Rightarrow> string" where
  "toString i = (if i < 0 then CHR ''-'' # show_nat (nat (- i)) else show_nat (nat i))"

text \<open>
  JavaScript numbers are IEEE 754 doubles, and every arithmetic operation rounds its
  exact result to the nearest double, ties to the even significand. A double is
  modelled as the rational it denotes. \<open>bitlen n\<close> is the number of binary digits of
  \<open>n\<close>, \<open>exponent x\<close> is the floor of the binary logarithm of \<open>x > 0\<close>, \<open>ulp x\<close> is the
  distance between neighbouring doubles around \<open>x\<close> (53 significant bits; \<open>pow2 (- 1074)\<close>
  in the subnormal range), \<open>rne\<close> rounds to the nearest integer, ties to even, and
  \<open>round_double x\<close> is
  the double nearest to \<open>x\<close>. Results beyond the largest finite double, which no
  computation here reaches, are not turned into \<open>Infinity\<close>.
\<close>

function bitlen :: "int \<Rightarrow> nat" where
  "bitlen n = (if n \<le> 0 then 0 else Suc (bitlen (n div 2)))"
  by pat_completeness auto
termination
  by (relation "measure nat") auto

declare bitlen.simps [simp del]

definition pow2 :: "int \<Rightarrow> rat" where
  "pow2 k = (if 0 \<le> k then 2 ^ nat k else 1 / 2 ^ nat (- k))"

definition exponent :: "rat \<Rightarrow> int" where
  "exponent x =
     (if 1 \<le> x then int (bitlen \<lfloor>x\<rfloor>) - 1
      else - int (bitlen (\<lceil>1 / x\<rceil> - 1)))"

definition ulp :: "rat \<Rightarrow> rat" where
  "ulp x = pow2 (max (exponent x - 52) (- 1074))"

definition rne :: "rat \<Rightarrow> int" where
  "rne q =
     (let f = \<lfloor>q\<rfloor>; d = q - of_int f
      in if d < 1 / 2 then f
         else if 1 / 2 < d then f + 1
         else if even f then f else f + 1)"

definition round_double :: "rat \<Rightarrow> rat" where
  "round_double x =
     (if x = 0 then 0
      else if 0 < x then of_int (rne (x / ulp x)) * ulp x
      else - (of_int (rne (- x / ulp (- x))) * ulp (- x)))"

definition is_double :: "rat \<Rightarrow> bool" where
  "is_double x = (round_double x = x)"

text \<open>
  \<^verbatim>\<open>Math.floor(100000 + Math.random() * 900000).toString()\<close>, as a function of the
  double \<open>r\<close> that \<open>Math.random()\<close> returned: the product is rounded, then the sum
  (100000 and 900000 are doubles), and \<open>Math.floor\<close> of a double is exact.
\<close>

definition otp_number :: "rat \<Rightarrow> int" where
  "otp_number r = \<lfloor>round_double (100000 + round_double (r * 900000))\<rfloor>"

definition generateOTP :: "rat \<Rightarrow> string" where
  "generateOTP r = toString (otp_number r)"

text \<open>
  \<open>sendOTPEmail\<close> returns \<open>true\<close> when \<open>transporter.sendMail\<close> resolves and \<open>false\<close>
  from its own \<open>catch\<close> when it rejects; it never throws.
\<close>

definition sendOTPEmail :: "world \<Rightarrow> string \<Rightarrow> string \<Rightarrow> string \<Rightarrow> bool" where
  "sendOTPEmail w email otp name = (if smtp_ok w then True else False)"

subsection \<open>Store calls of the auth controller\<close>

text \<open>\<^verbatim>\<open>prisma.user.findUnique({ where: { email } })\<close>\<close>

definition findUnique_email :: "user list \<Rightarrow> string \<Rightarrow> user option" where
  "findUnique_email us e = find (\<lambda>u. u_email u = e) us"

definition findUnique_id :: "user list \<Rightarrow> nat \<Rightarrow> user option" where
  "findUnique_id us i = find (\<lambda>u. u_id u = i) us"

text \<open>
  \<^verbatim>\<open>prisma.user.update({ where: { id }, data })\<close>: one statement that rewrites the
  record with that id and returns it; \<open>None\<close> when there is no such record (Prisma
  rejects).
\<close>

fun user_update :: "nat \<Rightarrow> (user \<Rightarrow> user) \<Rightarrow> user list \<Rightarrow> (user \<times> user list) option" where
  "user_update i f [] = None"
| "user_update i f (u # us) =
     (if u_id u = i then Some (f u, f u # us)
      else (case user_update i f us of
              None \<Rightarrow> None
            | Some (v, vs) \<Rightarrow> Some (v, u # vs)))"

text \<open>
  Modelled from the spec: the defaults of the columns that the call below does not
  give (\<open>prisma/schema.prisma\<close> is not available): a fresh unique id,
  \<open>isEmailVerified = false\<close>, no points, role USER, and as \<open>createdAt\<close> the instant
  \<open>store_now w\<close> at which the store creates the row.
  \<^verbatim>\<open>prisma.user.create({ data: { name, mobile, email, password, otp, otpExpiry } })\<close>
  appends the row and returns it.
\<close>

definition user_create ::
  "world \<Rightarrow> string \<Rightarrow> string \<Rightarrow> string \<Rightarrow> string \<Rightarrow> string \<Rightarrow> int \<Rightarrow> store \<Rightarrow> user \<times> store" where
  "user_create w name mobile email hashedPassword otp otpExpiry st =
     (let u = \<lparr>u_id = next_user_id st, u_name = name, u_mobile = mobile, u_email = email,
               u_password = hashedPassword, u_isEmailVerified = False,
               u_otp = Some otp, u_otpExpiry = Some otpExpiry,
               u_points = 0, u_role = ''USER'', u_createdAt = store_now w\<rparr>
      in (u, st\<lparr>users := users st @ [u], next_user_id := Suc (next_user_id st)\<rparr>))"

text \<open>
  \<^verbatim>\<open>select: { id, name, mobile, email, isEmailVerified, createdAt }\<close>, and the
  \<open>userData\<close> object that \<open>login\<close> builds from the same six fields.
\<close>

definition select_user :: "user \<Rightarrow> jval" where
  "select_user u = JObj
     [(''id'', JNum (of_nat (u_id u))),
      (''name'', JStr (u_name u)),
      (''mobile'', JStr (u_mobile u)),
      (''email'', JStr (u_email u)),
      (''isEmailVerified'', JBool (u_isEmailVerified u)),
      (''createdAt'', JNum (of_int (u_createdAt u)))]"

subsection \<open>The auth controller\<close>

record signup_req =
  sq_name :: string
  sq_mobile :: string
  sq_email :: string
  sq_password :: string

definition internal_error :: response where
  "internal_error = failure 500 ''Internal server error''"

definition signup :: "collab \<Rightarrow> world \<Rightarrow> signup_req \<Rightarrow> store \<Rightarrow> response \<times> store" where
  "signup lib w req st =
     (if rejects w 0 then (internal_error, st)
      else case findUnique_email (users st) (sq_email req) of
        Some existingUser \<Rightarrow> (failure 400 ''User with this email already exists'', st)
      | None \<Rightarrow>
          let saltRounds = 12;
              hashedPassword = bcrypt_hash lib (sq_password req) saltRounds;
              otp = generateOTP (random w);
              otpExpiry = now w + 10 * 60 * 1000
          in if rejects w 1 then (internal_error, st)
             else
               let (user, st') = user_create w (sq_name req) (sq_mobile req) (sq_email req)
                                   hashedPassword otp otpExpiry st;
                   emailSent = sendOTPEmail w (sq_email req) otp (sq_name req)
               in if \<not> emailSent then
                    (\<lparr>status = 201, body = JObj
                        [(''success'', JBool True),
                         (''message'', JStr (''User registered successfully! For development, use OTP: '' @ otp)),
                         (''data'', JObj
                            [(''user'', select_user user),
                             (''emailSent'', JBool False),
                             (''developmentOTP'', JStr otp)])]\<rparr>, st')
                  else
                    (\<lparr>status = 201, body = JObj
                        [(''success'', JBool True),
                         (''message'', JStr ''User registered successfully. Please check your email for verification code.''),
                         (''data'', JObj
                            [(''user'', select_user user),
                             (''emailSent'', JBool True)])]\<rparr>, st'))"

record login_req =
  lq_email :: string
  lq_password :: string

definition login :: "collab \<Rightarrow> world \<Rightarrow> login_req \<Rightarrow> store \<Rightarrow> response \<times> store" where
  "login lib w req st =
     (if rejects w 0 then (internal_error, st)
      else case findUnique_email (users st) (lq_email req) of
        None \<Rightarrow> (failure 401 ''Invalid email or password'', st)
      | Some user \<Rightarrow>
          let isPasswordValid = bcrypt_compare lib (lq_password req) (u_password user)
          in if \<not> isPasswordValid then (failure 401 ''Invalid email or password'', st)
             else
               let token = jwt_sign lib (u_id user) (JWT_SECRET w) (JWT_EXPIRES_IN w)
               in (\<lparr>status = 200, body = JObj
                     [(''success'', JBool True),
                      (''message'', JStr ''Login successful''),
                      (''data'', JObj
                         [(''user'', select_user user),
                          (''token'', JStr token)])]\<rparr>, st))"

record verify_req =
  vq_email :: string
  vq_otp :: string

text \<open>
  \<open>!user.otp\<close> holds for \<open>null\<close> and for the empty string; \<open>!user.otpExpiry\<close> holds
  for \<open>null\<close> only (a Date object is never falsy). \<open>new Date() > user.otpExpiry\<close>
  compares the two instants, strictly.
\<close>

definition verifyOTP :: "collab \<Rightarrow> world \<Rightarrow> verify_req \<Rightarrow> store \<Rightarrow> response \<times> store" where
  "verifyOTP lib w req st =
     (if rejects w 0 then (internal_error, st)
      else case findUnique_email (users st) (vq_email req) of
        None \<Rightarrow> (failure 404 ''User not found'', st)
      | Some user \<Rightarrow>
          if u_isEmailVerified user then (failure 400 ''Email is already verified'', st)
          else (case (u_otp user, u_otpExpiry user) of
            (Some user_otp, Some user_otpExpiry) \<Rightarrow>
              if user_otp = [] then (failure 400 ''No OTP found. Please request a new one.'', st)
              else if now w > user_otpExpiry then
                (failure 400 ''OTP has expired. Please request a new one.'', st)
              else if user_otp \<noteq> vq_otp req then (failure 400 ''Invalid OTP'', st)
              else if rejects w 1 then (internal_error, st)
              else (case user_update (u_id user)
                           (\<lambda>u. u\<lparr>u_isEmailVerified := True, u_otp := None, u_otpExpiry := None\<rparr>)
                           (users st) of
                 None \<Rightarrow> (internal_error, st)
               | Some (updatedUser, us') \<Rightarrow>
                   let token = jwt_sign lib (u_id updatedUser) (JWT_SECRET w) (JWT_EXPIRES_IN w)
                   in (\<lparr>status = 200, body = JObj
                         [(''success'', JBool True),
                          (''message'', JStr ''Email verified successfully''),
                          (''data'', JObj
                             [(''user'', select_user updatedUser),
                              (''token'', JStr token)])]\<rparr>, st\<lparr>users := us'\<rparr>))
          | _ \<Rightarrow> (failure 400 ''No OTP found. Please request a new one.'', st)))"

record resend_req =
  rq_email :: string

definition resendOTP :: "collab \<Rightarrow> world \<Rightarrow> resend_req \<Rightarrow> store \<Rightarrow> response \<times> store" where
  "resendOTP lib w req st =
     (if rejects w 0 then (internal_error, st)
      else case findUnique_email (users st) (rq_email req) of
        None \<Rightarrow> (failure 404 ''User not found'', st)
      | Some user \<Rightarrow>
          if u_isEmailVerified user then (failure 400 ''Email is already verified'', st)
          else
            let otp = generateOTP (random w);
                otpExpiry = now w + 10 * 60 * 1000
            in if rejects w 1 then (internal_error, st)
               else (case user_update (u_id user)
                            (\<lambda>u. u\<lparr>u_otp := Some otp, u_otpExpiry := Some otpExpiry\<rparr>)
                            (users st) of
                  None \<Rightarrow> (internal_error, st)
                | Some (updated, us') \<Rightarrow>
                    let emailSent = sendOTPEmail w (rq_email req) otp (u_name user)
                    in if \<not> emailSent then
                         (\<lparr>status = 200, body = JObj
                             [(''success'', JBool True),
                              (''message'', JStr (''New verification code generated! For development, use OTP: '' @ otp)),
                              (''developmentOTP'', JStr otp)]\<rparr>, st\<lparr>users := us'\<rparr>)
                       else
                         (\<lparr>status = 200, body = JObj
                             [(''success'', JBool True),
                              (''message'', JStr ''New verification code sent to your email'')]\<rparr>,
                          st\<lparr>users := us'\<rparr>)))"

subsection \<open>Store calls of the reports controller\<close>

text \<open>
  \<open>req.user\<close>, as the authentication middleware attaches it (\<open>middleware/auth.js\<close>
  is not available): the caller's id and role.
\<close>

record caller =
  c_id :: nat
  c_role :: string

text \<open>\<open>String.prototype.toUpperCase()\<close>, on ASCII letters.\<close>

definition upper_char :: "char \<Rightarrow> char" where
  "upper_char c =
     (case map_of (zip ''abcdefghijklmnopqrstuvwxyz'' ''ABCDEFGHIJKLMNOPQRSTUVWXYZ'') c of
        Some C \<Rightarrow> C
      | None \<Rightarrow> c)"

definition toUpperCase :: "string \<Rightarrow> string" where
  "toUpperCase s = map upper_char s"

text \<open>
  \<^verbatim>\<open>if (s) ...\<close> on an optional string: the branch is taken, with the string, when
  it is present and not empty.
\<close>

definition truthy :: "string option \<Rightarrow> string option" where
  "truthy s = (case s of None \<Rightarrow> None | Some v \<Rightarrow> if v = [] then None else Some v)"

text \<open>\<^verbatim>\<open>include: { user: { select: { id: true, name: true, email: true } } }\<close>\<close>

definition include_user :: "user list \<Rightarrow> nat \<Rightarrow> jval" where
  "include_user us i =
     (case findUnique_id us i of
        None \<Rightarrow> JNull
      | Some u \<Rightarrow> JObj [(''id'', JNum (of_nat (u_id u))),
                         (''name'', JStr (u_name u)),
                         (''email'', JStr (u_email u))])"


text \<open>A report row as the store returns it, with the included relation last.\<close>

definition report_json :: "report \<Rightarrow> jval \<Rightarrow> jval" where
  "report_json r usr = JObj
     [(''id'', JNum (of_int (r_id r))),
      (''category'', JStr (r_category r)),
      (''description'', JStr (r_description r)),
      (''latitude'', JNum (r_latitude r)),
      (''longitude'', JNum (r_longitude r)),
      (''address'', JStr (r_address r)),
      (''photo'', JStr (r_photo r)),
      (''status'', JStr (r_status r)),
      (''userId'', JNum (of_nat (r_userId r))),
      (''createdAt'', JNum (of_int (r_createdAt r))),
      (''updatedAt'', JNum (of_int (r_updatedAt r))),
      (''user'', usr)]"

record location =
  latitude :: rat
  longitude :: rat
  address :: string

text \<open>
  Modelled from the spec: a report is owned by exactly one user (the relation \<open>user\<close>
  that the call below includes; \<open>prisma/schema.prisma\<close> is not available), so the
  store rejects (\<open>None\<close>) a row whose \<open>userId\<close> is no user's id, and ids are handed
  out in increasing order.
  \<^verbatim>\<open>prisma.report.create({ data: { ... status: 'PENDING', userId, ... } })\<close> appends
  the row and returns it.
\<close>

definition report_create ::
  "world \<Rightarrow> string \<Rightarrow> string \<Rightarrow> location \<Rightarrow> string \<Rightarrow> nat \<Rightarrow> store \<Rightarrow> (report \<times> store) option" where
  "report_create w category description loc photo userId st =
     (case findUnique_id (users st) userId of
        None \<Rightarrow> None
      | Some owner \<Rightarrow>
          let r = \<lparr>r_id = next_report_id st, r_category = category,
                    r_description = description,
                    r_latitude = latitude loc, r_longitude = longitude loc,
                    r_address = address loc, r_photo = photo,
                    r_status = ''PENDING'', r_userId = userId,
                    r_createdAt = now w, r_updatedAt = now w\<rparr>
          in Some (r, st\<lparr>reports := reports st @ [r], next_report_id := next_report_id st + 1\<rparr>))"

text \<open>\<^verbatim>\<open>prisma.report.findUnique({ where: { id } })\<close>\<close>

definition report_findUnique :: "report list \<Rightarrow> int \<Rightarrow> report option" where
  "report_findUnique rs i = find (\<lambda>r. r_id r = i) rs"

text \<open>
  \<^verbatim>\<open>prisma.report.update({ where: { id }, data })\<close> and
  \<^verbatim>\<open>prisma.report.delete({ where: { id } })\<close>; \<open>None\<close> when no row has that id.
\<close>

fun report_update :: "int \<Rightarrow> (report \<Rightarrow> report) \<Rightarrow> report list \<Rightarrow> (report \<times> report list) option" where
  "report_update i f [] = None"
| "report_update i f (r # rs) =
     (if r_id r = i then Some (f r, f r # rs)
      else (case report_update i f rs of
              None \<Rightarrow> None
            | Some (v, vs) \<Rightarrow> Some (v, r # vs)))"

fun report_delete :: "int \<Rightarrow> report list \<Rightarrow> report list option" where
  "report_delete i [] = None"
| "report_delete i (r # rs) =
     (if r_id r = i then Some rs
      else (case report_delete i rs of
              None \<Rightarrow> None
            | Some vs \<Rightarrow> Some (r # vs)))"




subsection \<open>The reports controller\<close>

record submit_req =
  b_category :: "string option"
  b_description :: "string option"
  b_location :: "location option"
  b_photo :: "string option"

definition submit_error :: response where
  "submit_error = failure 500 ''Internal server error while submitting report''"

definition missing_fields :: response where
  "missing_fields = failure 400
     ''Missing required fields: category, description, location, and photo are required''"

definition submitReport :: "world \<Rightarrow> caller \<Rightarrow> submit_req \<Rightarrow> store \<Rightarrow> response \<times> store" where
  "submitReport w usr req st =
     (let userId = c_id usr
      in case (b_category req, b_description req, b_location req, b_photo req) of
        (Some category, Some description, Some loc, Some photo) \<Rightarrow>
          if category = [] \<or> description = [] \<or> photo = [] then (missing_fields, st)
          else if rejects w 0 then (submit_error, st)
          else (case report_create w category description loc photo userId st of
             None \<Rightarrow> (submit_error, st)
           | Some (report, st1) \<Rightarrow>
               let pointsToAward = 10
               in if rejects w 1 then (submit_error, st1)
                  else (case user_update userId
                               (\<lambda>u. u\<lparr>u_points := u_points u + pointsToAward\<rparr>) (users st1) of
                     None \<Rightarrow> (submit_error, st1)
                   | Some (awarded, us') \<Rightarrow>
                       (\<lparr>status = 201, body = JObj
                           [(''success'', JBool True),
                            (''message'', JStr ''Report submitted successfully''),
                            (''data'', JObj
                               [(''report'', JObj
                                   [(''id'', JNum (of_int (r_id report))),
                                    (''category'', JStr (r_category report)),
                                    (''description'', JStr (r_description report)),
                                    (''location'', JObj
                                       [(''latitude'', JNum (r_latitude report)),
                                        (''longitude'', JNum (r_longitude report)),
                                        (''address'', JStr (r_address report))]),
                                    (''status'', JStr (r_status report)),
                                    (''createdAt'', JNum (of_int (r_createdAt report))),
                                    (''user'', include_user (users st) userId)]),
                                (''pointsAwarded'', JNum (of_int pointsToAward))])]\<rparr>,
                        st1\<lparr>users := us'\<rparr>)))
      | _ \<Rightarrow> (missing_fields, st))"











text \<open>
  \<open>id\<close> below is \<open>parseInt(req.params.id)\<close>, the integer the route parameter denotes.
\<close>

definition getReportById :: "world \<Rightarrow> caller \<Rightarrow> int \<Rightarrow> store \<Rightarrow> response \<times> store" where
  "getReportById w usr ident st =
     (if rejects w 0 then (failure 500 ''Internal server error while fetching report'', st)
      else case report_findUnique (reports st) ident of
        None \<Rightarrow> (failure 404 ''Report not found'', st)
      | Some report \<Rightarrow>
          if r_userId report \<noteq> c_id usr \<and> c_role usr \<noteq> ''ADMIN'' then
            (failure 403 ''Access denied. You can only view your own reports.'', st)
          else
            (\<lparr>status = 200, body = JObj
                [(''success'', JBool True),
                 (''data'', JObj
                    [(''report'', report_json report
                                    (include_user (users st) (r_userId report)))])]\<rparr>, st))"

record update_req =
  p_description :: "string option"
  p_category :: "string option"
  p_status :: "string option"

definition updateData :: "world \<Rightarrow> caller \<Rightarrow> update_req \<Rightarrow> report \<Rightarrow> report" where
  "updateData w usr req r =
     (let r1 = r\<lparr>r_updatedAt := now w\<rparr>;
          r2 = (case truthy (p_description req) of
                  None \<Rightarrow> r1 | Some description \<Rightarrow> r1\<lparr>r_description := description\<rparr>);
          r3 = (case truthy (p_category req) of
                  None \<Rightarrow> r2 | Some category \<Rightarrow> r2\<lparr>r_category := category\<rparr>)
      in case truthy (p_status req) of
           None \<Rightarrow> r3
         | Some s \<Rightarrow> if c_role usr = ''ADMIN'' then r3\<lparr>r_status := toUpperCase s\<rparr> else r3)"

definition updateReport :: "world \<Rightarrow> caller \<Rightarrow> int \<Rightarrow> update_req \<Rightarrow> store \<Rightarrow> response \<times> store" where
  "updateReport w usr ident req st =
     (if rejects w 0 then (failure 500 ''Internal server error while updating report'', st)
      else case report_findUnique (reports st) ident of
        None \<Rightarrow> (failure 404 ''Report not found'', st)
      | Some existingReport \<Rightarrow>
          if r_userId existingReport \<noteq> c_id usr \<and> c_role usr \<noteq> ''ADMIN'' then
            (failure 403 ''Access denied. You can only update your own reports.'', st)
          else if rejects w 1 then
            (failure 500 ''Internal server error while updating report'', st)
          else (case report_update ident (updateData w usr req) (reports st) of
             None \<Rightarrow> (failure 500 ''Internal server error while updating report'', st)
           | Some (updatedReport, rs') \<Rightarrow>
               (\<lparr>status = 200, body = JObj
                   [(''success'', JBool True),
                    (''message'', JStr ''Report updated successfully''),
                    (''data'', JObj
                       [(''report'', report_json updatedReport
                                       (include_user (users st) (r_userId updatedReport)))])]\<rparr>,
                st\<lparr>reports := rs'\<rparr>)))"

definition deleteReport :: "world \<Rightarrow> caller \<Rightarrow> int \<Rightarrow> store \<Rightarrow> response \<times> store" where
  "deleteReport w usr ident st =
     (if rejects w 0 then (failure 500 ''Internal server error while deleting report'', st)
      else case report_findUnique (reports st) ident of
        None \<Rightarrow> (failure 404 ''Report not found'', st)
      | Some existingReport \<Rightarrow>
          if r_userId existingReport \<noteq> c_id usr \<and> c_role usr \<noteq> ''ADMIN'' then
            (failure 403 ''Access denied. You can only delete your own reports.'', st)
          else if rejects w 1 then
            (failure 500 ''Internal server error while deleting report'', st)
          else (case report_delete ident (reports st) of
             None \<Rightarrow> (failure 500 ''Internal server error while deleting report'', st)
           | Some rs' \<Rightarrow>
               (\<lparr>status = 200, body = JObj
                   [(''success'', JBool True),
                    (''message'', JStr ''Report deleted successfully'')]\<rparr>,
                st\<lparr>reports := rs'\<rparr>)))"

subsection \<open>Properties of the persisted data\<close>

text \<open>The key constraint of the user table: no two rows share an id.\<close>

definition unique_ids :: "store \<Rightarrow> bool" where
  "unique_ids st = distinct (map u_id (users st))"

text \<open>Ids are handed out in increasing order: every id in use is below the next one.\<close>

definition fresh_ids :: "store \<Rightarrow> bool" where
  "fresh_ids st = list_all (\<lambda>u. u_id u < next_user_id st) (users st)"

text \<open>
  The invariant of a user record: \<open>otp\<close> and \<open>otpExpiry\<close> are both set or both null,
  and a verified user has no \<open>otp\<close>.
\<close>

definition otp_invariant :: "user \<Rightarrow> bool" where
  "otp_invariant u =
     ((u_otp u = None) = (u_otpExpiry u = None) \<and>
      (if u_isEmailVerified u then u_otp u = None else True))"

definition store_invariant :: "store \<Rightarrow> bool" where
  "store_invariant st = list_all otp_invariant (users st)"

text \<open>The record that a successful verification leaves: verified, with no pending code.\<close>

definition verified :: "user \<Rightarrow> user" where
  "verified u = u\<lparr>u_isEmailVerified := True, u_otp := None, u_otpExpiry := None\<rparr>"

text \<open>\<open>res.data[k]\<close> of a response body \<open>{ success, message, data: { ... } }\<close>.\<close>

definition response_data :: "response \<Rightarrow> string \<Rightarrow> jval option" where
  "response_data res k = (case jget (body res) ''data'' of None \<Rightarrow> None | Some d \<Rightarrow> jget d k)"

text \<open>The points of the user with a given id.\<close>

definition points_of :: "store \<Rightarrow> nat \<Rightarrow> int option" where
  "points_of st i = map_option u_points (findUnique_id (users st) i)"


subsection \<open>Example data\<close>

definition ex_lib :: collab where
  "ex_lib = \<lparr>bcrypt_hash = (\<lambda>p n. CHR ''#'' # p),
             bcrypt_compare = (\<lambda>p h. h = CHR ''#'' # p),
             jwt_sign = (\<lambda>i secret expiresIn. ''token'')\<rparr>"

definition ex_world :: world where
  "ex_world = \<lparr>now = 500000, store_now = 500001, random = 1 / 2, smtp_ok = False, fault = None,
               NODE_ENV = ''production'', JWT_SECRET = ''secret'', JWT_EXPIRES_IN = ''7d''\<rparr>"

definition alice :: user where
  "alice = \<lparr>u_id = 1, u_name = ''Alice'', u_mobile = ''9000000001'', u_email = ''alice@example.com'',
            u_password = ''#Alice1'', u_isEmailVerified = True, u_otp = None, u_otpExpiry = None,
            u_points = 30, u_role = ''ADMIN'', u_createdAt = 1000\<rparr>"

definition bob :: user where
  "bob = \<lparr>u_id = 2, u_name = ''Bob'', u_mobile = ''9000000002'', u_email = ''bob@example.com'',
          u_password = ''#Bobby1'', u_isEmailVerified = False, u_otp = None, u_otpExpiry = None,
          u_points = 0, u_role = ''USER'', u_createdAt = 2000\<rparr>"

definition carol :: user where
  "carol = \<lparr>u_id = 3, u_name = ''Carol'', u_mobile = ''9000000003'', u_email = ''carol@example.com'',
            u_password = ''#Carol1'', u_isEmailVerified = False,
            u_otp = Some ''123456'', u_otpExpiry = Some 600000,
            u_points = 20, u_role = ''USER'', u_createdAt = 3000\<rparr>"

definition ex_report :: "nat \<Rightarrow> report" where
  "ex_report k = \<lparr>r_id = int k, r_category = ''pollution'', r_description = ''Oil on the shore'',
                  r_latitude = 21, r_longitude = 72, r_address = ''Pier 4'', r_photo = ''base64'',
                  r_status = ''PENDING'', r_userId = 3,
                  r_createdAt = 10000 + int k, r_updatedAt = 10000 + int k\<rparr>"

definition ex_store :: store where
  "ex_store = \<lparr>users = [alice, bob, carol], reports = map ex_report [1, 2, 3, 4, 5, 6, 7, 8, 9, 10, 11, 12, 13, 14, 15],
               next_user_id = 4, next_report_id = 16\<rparr>"

definition ex_submit :: submit_req where
  "ex_submit = \<lparr>b_category = Some ''waste-dumping'',
                b_description = Some ''Plastic waste near the mangroves'',
                b_location = Some \<lparr>latitude = 21, longitude = 72, address = ''Creek road''\<rparr>,
                b_photo = Some ''base64''\<rparr>"

definition ex_signup :: signup_req where
  "ex_signup = \<lparr>sq_name = ''Dave'', sq_mobile = ''9000000004'', sq_email = ''dave@example.com'',
                sq_password = ''Dave12''\<rparr>"

definition carol_caller :: caller where
  "carol_caller = \<lparr>c_id = 3, c_role = ''USER''\<rparr>"

definition bob_caller :: caller where
  "bob_caller = \<lparr>c_id = 2, c_role = ''USER''\<rparr>"

definition alice_caller :: caller where
  "alice_caller = \<lparr>c_id = 1, c_role = ''ADMIN''\<rparr>"

definition ex_patch :: update_req where
  "ex_patch = \<lparr>p_description = Some ''Oil on the shore, spreading'', p_category = None,
               p_status = Some ''resolved''\<rparr>"


definition ex_verify :: "string \<Rightarrow> string \<Rightarrow> verify_req" where
  "ex_verify e c = \<lparr>vq_email = e, vq_otp = c\<rparr>"

section \<open>Lemmas about the store calls\<close>

lemma find_Some_mem: "find P xs = Some x \<Longrightarrow> x \<in> set xs \<and> P x"
  by (induction xs) (auto split: if_splits)

lemma find_map_preserved:
  "(\<And>x. P (g x) = P x) \<Longrightarrow> find P (map g xs) = map_option g (find P xs)"
  by (induction xs) auto

lemma user_update_None: "(user_update i f us = None) = (i \<notin> u_id ` set us)"
  by (induction us) (auto split: option.splits)

lemma user_update_distinct:
  "distinct (map u_id us) \<Longrightarrow> user \<in> set us \<Longrightarrow>
   user_update (u_id user) f us = Some (f user, map (\<lambda>u. if u_id u = u_id user then f u else u) us)"
proof (induction us)
  case Nil
  then show ?case by simp
next
  case (Cons a us)
  show ?case
  proof (cases "a = user")
    case True
    have "u_id user \<notin> u_id ` set us" using Cons.prems True by simp
    then have "\<forall>u\<in>set us. u_id u \<noteq> u_id user" by (metis imageI)
    then have "map (\<lambda>u. if u_id u = u_id user then f u else u) us = us"
      by (simp add: map_idI)
    then show ?thesis using True by simp
  next
    case False
    then have m: "user \<in> set us" using Cons.prems by simp
    then have "u_id a \<noteq> u_id user" using Cons.prems by auto
    moreover have "distinct (map u_id us)" using Cons.prems by simp
    ultimately show ?thesis using Cons.IH m by simp
  qed
qed

lemma verifyOTP_success:
  assumes nf: "fault w = None"
    and ids: "unique_ids st"
    and fu: "findUnique_email (users st) (vq_email req) = Some user"
    and unv: "\<not> u_isEmailVerified user"
    and otp: "u_otp user = Some code" "code \<noteq> []"
    and ex: "u_otpExpiry user = Some e"
    and at: "now w \<le> e"
    and ok: "vq_otp req = code"
  shows "verifyOTP lib w req st =
    (\<lparr>status = 200, body = JObj
         [(''success'', JBool True),
          (''message'', JStr ''Email verified successfully''),
          (''data'', JObj
             [(''user'', select_user (verified user)),
              (''token'', JStr (jwt_sign lib (u_id user) (JWT_SECRET w) (JWT_EXPIRES_IN w)))])]\<rparr>,
     st\<lparr>users := map (\<lambda>u. if u_id u = u_id user then verified u else u) (users st)\<rparr>)"
proof -
  have m: "user \<in> set (users st)" using fu by (auto simp: findUnique_email_def dest: find_Some_mem)
  have d: "distinct (map u_id (users st))" using ids by (simp add: unique_ids_def)
  show ?thesis
    using nf fu unv otp ex at ok
    by (simp add: verifyOTP_def rejects_def verified_def user_update_distinct[OF d m])
qed

lemma verified_store_lookup:
  assumes ids: "unique_ids st"
    and fu: "findUnique_email (users st) e = Some user"
  shows "findUnique_email (map (\<lambda>u. if u_id u = u_id user then verified u else u) (users st)) e
         = Some (verified user)"
proof -
  have "find (\<lambda>u. u_email u = e) (map (\<lambda>u. if u_id u = u_id user then verified u else u) (users st))
        = map_option (\<lambda>u. if u_id u = u_id user then verified u else u) (find (\<lambda>u. u_email u = e) (users st))"
    by (rule find_map_preserved) (simp add: verified_def)
  then show ?thesis using fu by (simp add: findUnique_email_def)
qed

section \<open>The auth controller: verification and login\<close>

text \<open>
  Claim C1. When the store answers, \<open>verifyOTP\<close> goes through its checks in this
  order and stops at the first that applies: no user with that email, 404 "User not
  found"; the user is already verified, 400 "Email is already verified"; the user has no
  code, 400 "No OTP found"; the clock is past \<open>otpExpiry\<close>, 400 "OTP has expired",
  whatever code was sent; the codes differ, 400 "Invalid OTP". Otherwise one update
  sets \<open>isEmailVerified\<close> and clears \<open>otp\<close> and \<open>otpExpiry\<close> together, no other
  user changes, and the answer is 200 with the six selected fields of the user and a
  signed token.
\<close>

theorem verifyOTP_outcomes:
  assumes nf: "fault w = None" and ids: "unique_ids st"
  shows "(findUnique_email (users st) (vq_email req) = None \<longrightarrow>
            verifyOTP lib w req st = (failure 404 ''User not found'', st)) \<and>
         (\<forall>user. findUnique_email (users st) (vq_email req) = Some user \<longrightarrow>
            (u_isEmailVerified user \<longrightarrow>
               verifyOTP lib w req st = (failure 400 ''Email is already verified'', st)) \<and>
            (\<not> u_isEmailVerified user \<and> u_otp user = None \<longrightarrow>
               verifyOTP lib w req st = (failure 400 ''No OTP found. Please request a new one.'', st)) \<and>
            (\<forall>code e. \<not> u_isEmailVerified user \<and> u_otp user = Some code \<and> code \<noteq> [] \<and>
                       u_otpExpiry user = Some e \<longrightarrow>
               (e < now w \<longrightarrow>
                  verifyOTP lib w req st = (failure 400 ''OTP has expired. Please request a new one.'', st)) \<and>
               (now w \<le> e \<and> vq_otp req \<noteq> code \<longrightarrow>
                  verifyOTP lib w req st = (failure 400 ''Invalid OTP'', st)) \<and>
               (now w \<le> e \<and> vq_otp req = code \<longrightarrow>
                  verifyOTP lib w req st =
                    (\<lparr>status = 200, body = JObj
                       [(''success'', JBool True),
                        (''message'', JStr ''Email verified successfully''),
                        (''data'', JObj
                           [(''user'', select_user (verified user)),
                            (''token'', JStr (jwt_sign lib (u_id user) (JWT_SECRET w) (JWT_EXPIRES_IN w)))])]\<rparr>,
                     st\<lparr>users := map (\<lambda>u. if u_id u = u_id user then verified u else u) (users st)\<rparr>) \<and>
                  findUnique_email (users (snd (verifyOTP lib w req st))) (vq_email req)
                    = Some (verified user))))"
proof (intro conjI allI impI)
  assume "findUnique_email (users st) (vq_email req) = None"
  then show "verifyOTP lib w req st = (failure 404 ''User not found'', st)"
    using nf by (simp add: verifyOTP_def rejects_def)
next
  fix user
  assume "findUnique_email (users st) (vq_email req) = Some user" "u_isEmailVerified user"
  then show "verifyOTP lib w req st = (failure 400 ''Email is already verified'', st)"
    using nf by (simp add: verifyOTP_def rejects_def)
next
  fix user
  assume "findUnique_email (users st) (vq_email req) = Some user"
    "\<not> u_isEmailVerified user \<and> u_otp user = None"
  then show "verifyOTP lib w req st = (failure 400 ''No OTP found. Please request a new one.'', st)"
    using nf by (simp add: verifyOTP_def rejects_def)
next
  fix user code e
  assume "findUnique_email (users st) (vq_email req) = Some user"
    "\<not> u_isEmailVerified user \<and> u_otp user = Some code \<and> code \<noteq> [] \<and> u_otpExpiry user = Some e"
    "e < now w"
  then show "verifyOTP lib w req st = (failure 400 ''OTP has expired. Please request a new one.'', st)"
    using nf by (simp add: verifyOTP_def rejects_def)
next
  fix user code e
  assume "findUnique_email (users st) (vq_email req) = Some user"
    "\<not> u_isEmailVerified user \<and> u_otp user = Some code \<and> code \<noteq> [] \<and> u_otpExpiry user = Some e"
    "now w \<le> e \<and> vq_otp req \<noteq> code"
  then show "verifyOTP lib w req st = (failure 400 ''Invalid OTP'', st)"
    using nf by (auto simp add: verifyOTP_def rejects_def)
next
  fix user code e
  assume fu: "findUnique_email (users st) (vq_email req) = Some user"
    and p: "\<not> u_isEmailVerified user \<and> u_otp user = Some code \<and> code \<noteq> [] \<and> u_otpExpiry user = Some e"
    and q: "now w \<le> e \<and> vq_otp req = code"
  show eq: "verifyOTP lib w req st =
      (\<lparr>status = 200, body = JObj
         [(''success'', JBool True),
          (''message'', JStr ''Email verified successfully''),
          (''data'', JObj
             [(''user'', select_user (verified user)),
              (''token'', JStr (jwt_sign lib (u_id user) (JWT_SECRET w) (JWT_EXPIRES_IN w)))])]\<rparr>,
       st\<lparr>users := map (\<lambda>u. if u_id u = u_id user then verified u else u) (users st)\<rparr>)"
    using verifyOTP_success[OF nf ids fu, of code e lib] p q by simp
  show "findUnique_email (users (snd (verifyOTP lib w req st))) (vq_email req) = Some (verified user)"
    using verified_store_lookup[OF ids fu] by (simp add: eq)
qed

lemma ex_store_unique: "unique_ids ex_store"
  by (simp add: unique_ids_def ex_store_def alice_def bob_def carol_def)

lemma ex_find [simp]:
  "findUnique_email (users ex_store) ''alice@example.com'' = Some alice"
  "findUnique_email (users ex_store) ''bob@example.com'' = Some bob"
  "findUnique_email (users ex_store) ''carol@example.com'' = Some carol"
  "findUnique_email (users ex_store) ''nobody@example.com'' = None"
  by (simp_all add: findUnique_email_def ex_store_def alice_def bob_def carol_def)

text \<open>
  The six outcomes on the example store: an unknown address, the verified Alice, Bob
  without a code, Carol one millisecond late, Carol with a wrong code, Carol with
  her code in time.
\<close>

theorem verifyOTP_outcomes_witness:
  "fault ex_world = None \<and> unique_ids ex_store \<and>
   verifyOTP ex_lib ex_world (ex_verify ''nobody@example.com'' ''123456'') ex_store
     = (failure 404 ''User not found'', ex_store) \<and>
   verifyOTP ex_lib ex_world (ex_verify ''alice@example.com'' ''123456'') ex_store
     = (failure 400 ''Email is already verified'', ex_store) \<and>
   verifyOTP ex_lib ex_world (ex_verify ''bob@example.com'' ''123456'') ex_store
     = (failure 400 ''No OTP found. Please request a new one.'', ex_store) \<and>
   verifyOTP ex_lib (ex_world\<lparr>now := 600001\<rparr>) (ex_verify ''carol@example.com'' ''123456'') ex_store
     = (failure 400 ''OTP has expired. Please request a new one.'', ex_store) \<and>
   verifyOTP ex_lib ex_world (ex_verify ''carol@example.com'' ''654321'') ex_store
     = (failure 400 ''Invalid OTP'', ex_store) \<and>
   findUnique_email (users (snd (verifyOTP ex_lib ex_world (ex_verify ''carol@example.com'' ''123456'') ex_store)))
      ''carol@example.com'' = Some (verified carol)"
proof -
  have nf: "fault ex_world = None" by (simp add: ex_world_def)
  have nf': "fault (ex_world\<lparr>now := 600001\<rparr>) = None" by (simp add: ex_world_def)
  note T = verifyOTP_outcomes[OF nf ex_store_unique, of _ ex_lib]
  note T' = verifyOTP_outcomes[OF nf' ex_store_unique, of _ ex_lib]
  have 1: "verifyOTP ex_lib ex_world (ex_verify ''nobody@example.com'' ''123456'') ex_store
     = (failure 404 ''User not found'', ex_store)"
    using T[of "ex_verify ''nobody@example.com'' ''123456''"] by (simp add: ex_verify_def)
  have 2: "verifyOTP ex_lib ex_world (ex_verify ''alice@example.com'' ''123456'') ex_store
     = (failure 400 ''Email is already verified'', ex_store)"
    using T[of "ex_verify ''alice@example.com'' ''123456''"] by (simp add: ex_verify_def alice_def)
  have 3: "verifyOTP ex_lib ex_world (ex_verify ''bob@example.com'' ''123456'') ex_store
     = (failure 400 ''No OTP found. Please request a new one.'', ex_store)"
    using T[of "ex_verify ''bob@example.com'' ''123456''"] by (simp add: ex_verify_def bob_def)
  have 4: "verifyOTP ex_lib (ex_world\<lparr>now := 600001\<rparr>) (ex_verify ''carol@example.com'' ''123456'') ex_store
     = (failure 400 ''OTP has expired. Please request a new one.'', ex_store)"
    using T'[of "ex_verify ''carol@example.com'' ''123456''"] by (simp add: ex_verify_def carol_def)
  have 5: "verifyOTP ex_lib ex_world (ex_verify ''carol@example.com'' ''654321'') ex_store
     = (failure 400 ''Invalid OTP'', ex_store)"
    using T[of "ex_verify ''carol@example.com'' ''654321''"] by (simp add: ex_verify_def carol_def ex_world_def)
  have 6: "findUnique_email (users (snd (verifyOTP ex_lib ex_world (ex_verify ''carol@example.com'' ''123456'') ex_store)))
      ''carol@example.com'' = Some (verified carol)"
  proof -
    let ?R = "ex_verify ''carol@example.com'' ''123456''"
    have e: "vq_email ?R = ''carol@example.com''" by (simp add: ex_verify_def)
    have fu: "findUnique_email (users ex_store) (vq_email ?R) = Some carol" by (simp add: e)
    have p: "\<not> u_isEmailVerified carol \<and> u_otp carol = Some ''123456'' \<and> ''123456'' \<noteq> [] \<and>
             u_otpExpiry carol = Some 600000"
      by (simp add: carol_def)
    have q: "now ex_world \<le> 600000 \<and> vq_otp ?R = ''123456''"
      by (simp add: ex_world_def ex_verify_def)
    have "findUnique_email (users (snd (verifyOTP ex_lib ex_world ?R ex_store))) (vq_email ?R)
            = Some (verified carol)"
      using T[of ?R] fu p q by blast
    then show ?thesis by (simp only: e)
  qed
  show ?thesis using nf ex_store_unique 1 2 3 4 5 6 by simp
qed

text \<open>
  Claim C10. For an unverified user with a pending code and a request carrying that
  code: at the instant \<open>now = otpExpiry\<close> the verification succeeds, and the answer is
  "OTP has expired" exactly when \<open>now\<close> is strictly greater than \<open>otpExpiry\<close>.
\<close>

theorem verifyOTP_expiry_is_strict:
  assumes nf: "fault w = None"
    and ids: "unique_ids st"
    and fu: "findUnique_email (users st) (vq_email req) = Some user"
    and unv: "\<not> u_isEmailVerified user"
    and otp: "u_otp user = Some code" "code \<noteq> []"
    and ex: "u_otpExpiry user = Some e"
    and ok: "vq_otp req = code"
  shows "(now w = e \<longrightarrow>
            status (fst (verifyOTP lib w req st)) = 200 \<and>
            findUnique_email (users (snd (verifyOTP lib w req st))) (vq_email req)
              = Some (verified user)) \<and>
         ((fst (verifyOTP lib w req st) = failure 400 ''OTP has expired. Please request a new one.'')
            = (e < now w))"
proof (intro conjI impI)
  assume at: "now w = e"
  then have le: "now w \<le> e" by simp
  note s = verifyOTP_success[OF nf ids fu unv otp ex le ok, of lib]
  show "status (fst (verifyOTP lib w req st)) = 200" by (simp add: s)
  show "findUnique_email (users (snd (verifyOTP lib w req st))) (vq_email req) = Some (verified user)"
    using verified_store_lookup[OF ids fu] by (simp add: s)
next
  show "(fst (verifyOTP lib w req st) = failure 400 ''OTP has expired. Please request a new one.'')
            = (e < now w)"
  proof (cases "e < now w")
    case True
    then show ?thesis using nf fu unv otp ex by (simp add: verifyOTP_def rejects_def)
  next
    case False
    then have le: "now w \<le> e" by simp
    show ?thesis using False by (simp add: verifyOTP_success[OF nf ids fu unv otp ex le ok] failure_def)
  qed
qed

text \<open>
  Carol's code expires at 600000; verifying at 600000 succeeds.
\<close>

theorem verifyOTP_expiry_is_strict_witness:
  "now (ex_world\<lparr>now := 600000\<rparr>) = 600000 \<and> u_otpExpiry carol = Some 600000 \<and>
   status (fst (verifyOTP ex_lib (ex_world\<lparr>now := 600000\<rparr>)
                  (ex_verify ''carol@example.com'' ''123456'') ex_store)) = 200"
proof -
  have nf: "fault (ex_world\<lparr>now := 600000\<rparr>) = None" by (simp add: ex_world_def)
  have fu: "findUnique_email (users ex_store) (vq_email (ex_verify ''carol@example.com'' ''123456'')) = Some carol"
    by (simp add: ex_verify_def)
  have unv: "\<not> u_isEmailVerified carol" by (simp add: carol_def)
  have otp: "u_otp carol = Some ''123456''" "''123456'' \<noteq> []" by (simp_all add: carol_def)
  have ex: "u_otpExpiry carol = Some 600000" by (simp add: carol_def)
  have ok: "vq_otp (ex_verify ''carol@example.com'' ''123456'') = ''123456''" by (simp add: ex_verify_def)
  show ?thesis
    using verifyOTP_expiry_is_strict[OF nf ex_store_unique fu unv otp ex ok, of ex_lib] ex
    by simp
qed

text \<open>
  Claim C5. A login with an email that no user has and a login with an existing email
  and a password that does not match write the same response, status 401 with the
  message "Invalid email or password", and neither changes the store.
\<close>

theorem login_failures_identical:
  assumes "fault w1 = None" and "fault w2 = None"
    and "findUnique_email (users st1) (lq_email req1) = None"
    and "findUnique_email (users st2) (lq_email req2) = Some user"
    and "\<not> bcrypt_compare lib (lq_password req2) (u_password user)"
  shows "fst (login lib w1 req1 st1) = fst (login lib w2 req2 st2) \<and>
         fst (login lib w1 req1 st1) = failure 401 ''Invalid email or password'' \<and>
         snd (login lib w1 req1 st1) = st1 \<and> snd (login lib w2 req2 st2) = st2"
  using assms by (simp add: login_def rejects_def)

text \<open>
  On the example store: an unknown address against Carol's address with a wrong password.
\<close>

theorem login_failures_identical_witness:
  "findUnique_email (users ex_store) ''nobody@example.com'' = None \<and>
   findUnique_email (users ex_store) ''carol@example.com'' = Some carol \<and>
   \<not> bcrypt_compare ex_lib ''Wrong1'' (u_password carol) \<and>
   fst (login ex_lib ex_world \<lparr>lq_email = ''nobody@example.com'', lq_password = ''Carol1''\<rparr> ex_store)
     = fst (login ex_lib ex_world \<lparr>lq_email = ''carol@example.com'', lq_password = ''Wrong1''\<rparr> ex_store)"
proof -
  have nf: "fault ex_world = None" by (simp add: ex_world_def)
  have a: "findUnique_email (users ex_store) (lq_email \<lparr>lq_email = ''nobody@example.com'', lq_password = ''Carol1''\<rparr>) = None"
    by simp
  have b: "findUnique_email (users ex_store) (lq_email \<lparr>lq_email = ''carol@example.com'', lq_password = ''Wrong1''\<rparr>) = Some carol"
    by simp
  have c: "\<not> bcrypt_compare ex_lib (lq_password \<lparr>lq_email = ''carol@example.com'', lq_password = ''Wrong1''\<rparr>) (u_password carol)"
    by (simp add: ex_lib_def carol_def)
  show ?thesis using login_failures_identical[OF nf nf a b c] a b c by simp
qed

section \<open>The one-time code\<close>

lemma rne_le: "q < of_int n + 1 / 2 \<Longrightarrow> rne q \<le> n"
proof -
  assume a: "q < of_int n + 1 / 2"
  have fq: "of_int \<lfloor>q\<rfloor> \<le> q" by simp
  have "(of_int \<lfloor>q\<rfloor> :: rat) < of_int n + 1" using a fq by linarith
  then have "(of_int \<lfloor>q\<rfloor> :: rat) < of_int (n + 1)" by simp
  then have "\<lfloor>q\<rfloor> < n + 1" by (simp only: of_int_less_iff)
  then have fl: "\<lfloor>q\<rfloor> \<le> n" by simp
  show ?thesis
  proof (cases "\<lfloor>q\<rfloor> = n")
    case True
    then have "q - of_int \<lfloor>q\<rfloor> < 1 / 2" using a by simp
    then show ?thesis using True by (simp add: rne_def Let_def)
  next
    case False
    then have "\<lfloor>q\<rfloor> + 1 \<le> n" using fl by simp
    then show ?thesis by (simp add: rne_def Let_def)
  qed
qed

lemma rne_ge: "of_int n \<le> q \<Longrightarrow> n \<le> rne q"
proof -
  assume "of_int n \<le> q"
  then have "n \<le> \<lfloor>q\<rfloor>" by (simp add: le_floor_iff)
  then show ?thesis by (simp add: rne_def Let_def)
qed

lemma bitlen_le: "n < 2 ^ k \<Longrightarrow> bitlen n \<le> k"
proof (induction k arbitrary: n)
  case 0
  then show ?case by (simp add: bitlen.simps)
next
  case (Suc k)
  show ?case
  proof (cases "n \<le> 0")
    case True
    then show ?thesis by (simp add: bitlen.simps)
  next
    case False
    have "n div 2 < 2 ^ k" using Suc.prems by simp
    then have "bitlen (n div 2) \<le> k" by (rule Suc.IH)
    then show ?thesis using False by (subst bitlen.simps) simp
  qed
qed

lemma bitlen_gt: "2 ^ k \<le> n \<Longrightarrow> k < bitlen n"
proof (induction k arbitrary: n)
  case 0
  then show ?case by (subst bitlen.simps) simp
next
  case (Suc k)
  have "(0::int) < 2 ^ Suc k" by simp
  with Suc.prems have n0: "\<not> n \<le> 0" by linarith
  have "2 ^ k \<le> n div 2" using Suc.prems by simp
  then have "k < bitlen (n div 2)" by (rule Suc.IH)
  then show ?case using n0 by (subst bitlen.simps) simp
qed

lemma exponent_below:
  assumes "0 < x" and "x < 2 ^ Suc k"
  shows "exponent x \<le> int k"
proof (cases "1 \<le> x")
  case True
  have "\<lfloor>x\<rfloor> < 2 ^ Suc k"
  proof -
    have "x < of_int (2 ^ Suc k)" using assms(2) by simp
    then show ?thesis by (simp only: floor_less_iff)
  qed
  then have "bitlen \<lfloor>x\<rfloor> \<le> Suc k" by (rule bitlen_le)
  then show ?thesis using True by (simp add: exponent_def)
next
  case False
  then show ?thesis by (simp add: exponent_def)
qed

lemma exponent_binade:
  assumes "2 ^ k \<le> x" and "x < 2 ^ Suc k"
  shows "exponent x = int k"
proof -
  have one: "1 \<le> x"
  proof -
    have "(1::rat) \<le> 2 ^ k" by simp
    then show ?thesis using assms(1) by linarith
  qed
  then have pos: "0 < x" by simp
  have up: "exponent x \<le> int k" by (rule exponent_below[OF pos assms(2)])
  have "of_int (2 ^ k) \<le> x" using assms(1) by simp
  then have "2 ^ k \<le> \<lfloor>x\<rfloor>" by (simp only: le_floor_iff)
  then have "k < bitlen \<lfloor>x\<rfloor>" by (rule bitlen_gt)
  then have "int k \<le> exponent x" using one by (simp add: exponent_def)
  then show ?thesis using up by simp
qed

lemma ulp_below:
  assumes "0 < x" and "x < 2 ^ Suc k" and "k \<le> 52"
  shows "\<exists>j. 52 - k \<le> j \<and> ulp x = 1 / 2 ^ j"
proof -
  have "exponent x \<le> int k" by (rule exponent_below[OF assms(1,2)])
  then have neg: "max (exponent x - 52) (- 1074) \<le> int k - 52" by simp
  then have neg0: "max (exponent x - 52) (- 1074) \<le> 0" using assms(3) by simp
  let ?j = "nat (- max (exponent x - 52) (- 1074))"
  have "52 - k \<le> ?j" using neg by simp
  moreover have "ulp x = 1 / 2 ^ ?j"
  proof (cases "max (exponent x - 52) (- 1074) = 0")
    case True
    then show ?thesis by (simp add: ulp_def pow2_def)
  next
    case False
    then have "\<not> 0 \<le> max (exponent x - 52) (- 1074)" using neg0 by linarith
    then show ?thesis unfolding ulp_def pow2_def by (simp only: if_False)
  qed
  ultimately show ?thesis by blast
qed

lemma ulp_binade:
  assumes "2 ^ k \<le> x" and "x < 2 ^ Suc k" and "k \<le> 52"
  shows "ulp x = 1 / 2 ^ (52 - k)"
proof -
  have e: "exponent x = int k" by (rule exponent_binade[OF assms(1,2)])
  have m: "max (int k - 52) (- 1074) = int k - 52" by simp
  show ?thesis
  proof (cases "k = 52")
    case True
    then show ?thesis by (simp add: ulp_def pow2_def e)
  next
    case False
    then have lt: "k < 52" using assms(3) by simp
    then have "\<not> 0 \<le> int k - 52" by simp
    moreover have "nat (- (int k - 52)) = 52 - k" using lt by simp
    ultimately show ?thesis by (simp add: ulp_def pow2_def e m)
  qed
qed

lemma round_double_pos:
  assumes "0 < x" and "ulp x = 1 / 2 ^ j"
  shows "round_double x = of_int (rne (x * 2 ^ j)) / 2 ^ j"
  using assms by (simp add: round_double_def)

text \<open>A multiple of \<open>1 / 2 ^ g\<close> is a multiple of every finer unit \<open>1 / 2 ^ j\<close>.\<close>

lemma grid_finer: "g \<le> j \<Longrightarrow> (of_int m / 2 ^ g :: rat) * 2 ^ j = of_int (m * 2 ^ (j - g))"
proof -
  assume "g \<le> j"
  then have "(2::rat) ^ j = 2 ^ g * 2 ^ (j - g)" by (simp flip: power_add)
  then show ?thesis by simp
qed

lemma grid_back: "g \<le> j \<Longrightarrow> (of_int (m * 2 ^ (j - g)) :: rat) / 2 ^ j = of_int m / 2 ^ g"
proof -
  assume "g \<le> j"
  then have "(2::rat) ^ j = 2 ^ g * 2 ^ (j - g)" by (simp flip: power_add)
  then show ?thesis by simp
qed

lemma round_double_upper:
  assumes pos: "0 < x" and small: "x < 2 ^ Suc k" and k: "k \<le> 52"
    and near: "x < of_int m / 2 ^ (52 - k) + 1 / 2 ^ Suc (52 - k)"
    and below: "x < 2 ^ k \<longrightarrow> x \<le> of_int m / 2 ^ (52 - k)"
  shows "round_double x \<le> of_int m / 2 ^ (52 - k)"
proof -
  let ?g = "52 - k"
  from ulp_below[OF pos small k] obtain j where j: "?g \<le> j" and u: "ulp x = 1 / 2 ^ j" by blast
  have r: "round_double x = of_int (rne (x * 2 ^ j)) / 2 ^ j" by (rule round_double_pos[OF pos u])
  have g: "(of_int m / 2 ^ ?g :: rat) * 2 ^ j = of_int (m * 2 ^ (j - ?g))" by (rule grid_finer[OF j])
  have q: "x * 2 ^ j < of_int (m * 2 ^ (j - ?g)) + 1 / 2"
  proof (cases "x < 2 ^ k")
    case True
    then have "x \<le> of_int m / 2 ^ ?g" using below by simp
    then have "x * 2 ^ j \<le> (of_int m / 2 ^ ?g) * 2 ^ j" by (intro mult_right_mono) simp_all
    then show ?thesis using g by linarith
  next
    case False
    then have "ulp x = 1 / 2 ^ ?g" using ulp_binade[of k x] small k by simp
    then have "(2::rat) ^ j = 2 ^ ?g" using u by simp
    then have jg: "j = ?g" by simp
    have A: "x * 2 ^ ?g < (of_int m / 2 ^ ?g + 1 / 2 ^ Suc ?g) * 2 ^ ?g"
      using near by (intro mult_strict_right_mono) simp_all
    have B: "(of_int m / 2 ^ ?g + 1 / 2 ^ Suc ?g) * 2 ^ ?g = (of_int m :: rat) + 1 / 2"
      by (simp add: field_simps)
    have C: "x * 2 ^ ?g < of_int m + 1 / 2" using A unfolding B .
    show ?thesis using C by (simp add: jg)
  qed
  have "rne (x * 2 ^ j) \<le> m * 2 ^ (j - ?g)" by (rule rne_le[OF q])
  then have "(of_int (rne (x * 2 ^ j)) :: rat) \<le> of_int (m * 2 ^ (j - ?g))" by (simp only: of_int_le_iff)
  then have "(of_int (rne (x * 2 ^ j)) :: rat) / 2 ^ j \<le> of_int (m * 2 ^ (j - ?g)) / 2 ^ j"
    by (intro divide_right_mono) simp_all
  then show ?thesis using r grid_back[OF j, of m] by simp
qed

lemma round_double_lower:
  assumes pos: "0 < x" and small: "x < 2 ^ Suc k" and k: "k \<le> 52"
    and above: "of_int m / 2 ^ (52 - k) \<le> x"
  shows "of_int m / 2 ^ (52 - k) \<le> round_double x"
proof -
  let ?g = "52 - k"
  from ulp_below[OF pos small k] obtain j where j: "?g \<le> j" and u: "ulp x = 1 / 2 ^ j" by blast
  have r: "round_double x = of_int (rne (x * 2 ^ j)) / 2 ^ j" by (rule round_double_pos[OF pos u])
  have g: "(of_int m / 2 ^ ?g :: rat) * 2 ^ j = of_int (m * 2 ^ (j - ?g))" by (rule grid_finer[OF j])
  have "(of_int m / 2 ^ ?g) * 2 ^ j \<le> x * 2 ^ j" using above by (intro mult_right_mono) simp_all
  then have "of_int (m * 2 ^ (j - ?g)) \<le> x * 2 ^ j" using g by simp
  then have "m * 2 ^ (j - ?g) \<le> rne (x * 2 ^ j)" by (rule rne_ge)
  then have "(of_int (m * 2 ^ (j - ?g)) :: rat) \<le> of_int (rne (x * 2 ^ j))" by (simp only: of_int_le_iff)
  then have "(of_int (m * 2 ^ (j - ?g)) :: rat) / 2 ^ j \<le> of_int (rne (x * 2 ^ j)) / 2 ^ j"
    by (intro divide_right_mono) simp_all
  then show ?thesis using r grid_back[OF j, of m] by simp
qed

lemma round_double_nonneg: "0 \<le> x \<Longrightarrow> 0 \<le> round_double x"
proof (cases "x = 0")
  case True
  then show ?thesis by (simp add: round_double_def)
next
  case False
  assume "0 \<le> x"
  then have pos: "0 < x" using False by simp
  have u: "0 < ulp x" by (simp add: ulp_def pow2_def)
  then have "of_int 0 \<le> x / ulp x" using pos by simp
  then have "0 \<le> rne (x / ulp x)" by (rule rne_ge)
  then show ?thesis using pos u by (simp add: round_double_def)
qed

lemma otp_number_range:
  assumes r0: "0 \<le> r" and r1: "r \<le> 1 - 1 / 2 ^ 53"
  shows "100000 \<le> otp_number r \<and> otp_number r \<le> 999999"
proof -
  let ?p = "round_double (r * 900000)"
  let ?s = "round_double (100000 + ?p)"
  have p0: "0 \<le> ?p" using r0 by (intro round_double_nonneg) simp
  have p1: "?p \<le> of_int (900000 * 2 ^ 33 - 1) / 2 ^ (52 - 19)"
  proof (cases "r = 0")
    case True
    then show ?thesis by (simp add: round_double_def)
  next
    case False
    then have pos: "0 < r * 900000" using r0 by simp
    have up: "r * 900000 \<le> (1 - 1 / 2 ^ 53) * 900000" using r1 by (intro mult_right_mono) simp_all
    show ?thesis
    proof (rule round_double_upper[OF pos])
      show "r * 900000 < 2 ^ Suc 19" using up by simp
      show "(19::nat) \<le> 52" by simp
      show "r * 900000 < of_int (900000 * 2 ^ 33 - 1) / 2 ^ (52 - 19) + 1 / 2 ^ Suc (52 - 19)"
        using up by simp
      show "r * 900000 < 2 ^ 19 \<longrightarrow> r * 900000 \<le> of_int (900000 * 2 ^ 33 - 1) / 2 ^ (52 - 19)"
        by simp
    qed
  qed
  have y0: "0 < 100000 + ?p" using p0 by simp
  have y1: "100000 + ?p < 2 ^ Suc 19" using p1 by simp
  have s0: "of_int (100000 * 2 ^ 33) / 2 ^ (52 - 19) \<le> ?s"
    by (rule round_double_lower[OF y0 y1]) (use p0 in simp_all)
  have s1: "?s \<le> of_int (1000000 * 2 ^ 33 - 1) / 2 ^ (52 - 19)"
  proof (rule round_double_upper[OF y0 y1])
    show "(19::nat) \<le> 52" by simp
    show "100000 + ?p < of_int (1000000 * 2 ^ 33 - 1) / 2 ^ (52 - 19) + 1 / 2 ^ Suc (52 - 19)"
      using p1 by simp
    show "100000 + ?p < 2 ^ 19 \<longrightarrow> 100000 + ?p \<le> of_int (1000000 * 2 ^ 33 - 1) / 2 ^ (52 - 19)"
      by simp
  qed
  have lo: "(100000::rat) \<le> ?s" using s0 by simp
  have hi: "?s < 1000000" using s1 by simp
  have "(100000::int) \<le> \<lfloor>?s\<rfloor>" using lo by (simp add: le_floor_iff)
  moreover have "\<lfloor>?s\<rfloor> < (1000000::int)" using hi by (simp add: floor_less_iff)
  ultimately show ?thesis by (simp add: otp_number_def)
qed

lemma double_below_one:
  assumes d: "is_double r" and r1: "r < 1"
  shows "r \<le> 1 - 1 / 2 ^ 53"
proof (cases "r < 1 / 2")
  case True
  then show ?thesis by simp
next
  case False
  then have half: "1 / 2 \<le> r" by simp
  then have pos: "0 < r" by simp
  have "\<lceil>1 / r\<rceil> = 2"
  proof (rule ceiling_unique)
    show "of_int 2 - 1 < 1 / r" using pos r1 by (simp add: field_simps)
    show "1 / r \<le> of_int 2" using pos half by (simp add: field_simps)
  qed
  then have "exponent r = - 1" using r1 by (simp add: exponent_def bitlen.simps)
  then have u: "ulp r = 1 / 2 ^ 53" by (simp add: ulp_def pow2_def)
  have rr: "r = of_int (rne (r * 2 ^ 53)) / 2 ^ 53"
    using d round_double_pos[OF pos u] by (simp add: is_double_def)
  have "(of_int (rne (r * 2 ^ 53)) :: rat) < 2 ^ 53"
  proof -
    have "of_int (rne (r * 2 ^ 53)) / 2 ^ 53 < (1::rat)" using rr r1 by simp
    then show ?thesis by (simp add: field_simps)
  qed
  then have "(of_int (rne (r * 2 ^ 53)) :: rat) < of_int (2 ^ 53)" by simp
  then have "rne (r * 2 ^ 53) < 2 ^ 53" by (simp only: of_int_less_iff)
  then have "rne (r * 2 ^ 53) \<le> 2 ^ 53 - 1" by simp
  then have "(of_int (rne (r * 2 ^ 53)) :: rat) \<le> of_int (2 ^ 53 - 1)" by (simp only: of_int_le_iff)
  then have "(of_int (rne (r * 2 ^ 53)) :: rat) / 2 ^ 53 \<le> of_int (2 ^ 53 - 1) / 2 ^ 53"
    by (intro divide_right_mono) simp_all
  then have "r \<le> of_int (2 ^ 53 - 1) / 2 ^ 53" using rr by simp
  then show ?thesis by simp
qed

lemma otp_number_six_digit_value:
  assumes "0 \<le> r" and "r < 1" and "is_double r"
  shows "100000 \<le> otp_number r \<and> otp_number r \<le> 999999"
  by (rule otp_number_range[OF assms(1) double_below_one[OF assms(3) assms(2)]])

lemma digit_char_digit: "digit_char d \<in> set ''0123456789''"
proof -
  have "d mod 10 < length ''0123456789''" by simp
  then show ?thesis unfolding digit_char_def by (rule nth_mem)
qed

lemma show_nat_digits: "set (show_nat n) \<subseteq> set ''0123456789''"
proof (induction n rule: show_nat.induct)
  case (1 n)
  show ?case
  proof (cases "n < 10")
    case True
    then show ?thesis using digit_char_digit[of n] by (subst show_nat.simps) simp
  next
    case False
    then show ?thesis using 1 digit_char_digit[of "n mod 10"] by (subst show_nat.simps) simp
  qed
qed

lemma show_nat_length: "10 ^ k \<le> n \<Longrightarrow> n < 10 ^ Suc k \<Longrightarrow> length (show_nat n) = Suc k"
proof (induction k arbitrary: n)
  case 0
  then show ?case by (subst show_nat.simps) simp
next
  case (Suc k)
  have ge: "10 \<le> n"
  proof -
    have "(10::nat) \<le> 10 ^ Suc k" by simp
    from this Suc.prems(1) show ?thesis by (rule le_trans)
  qed
  have lo: "10 ^ k \<le> n div 10" using Suc.prems(1) by (simp add: less_eq_div_iff_mult_less_eq mult.commute)
  have hi: "n div 10 < 10 ^ Suc k" using Suc.prems(2) by (simp add: div_less_iff_less_mult mult.commute)
  have "length (show_nat (n div 10)) = Suc k" by (rule Suc.IH[OF lo hi])
  then show ?case using ge by (subst show_nat.simps) simp
qed

lemma generateOTP_six_digits:
  assumes "0 \<le> r" and "r < 1" and "is_double r"
  shows "length (generateOTP r) = 6 \<and> set (generateOTP r) \<subseteq> set ''0123456789''"
proof -
  let ?n = "nat (otp_number r)"
  have rg: "100000 \<le> otp_number r \<and> otp_number r \<le> 999999" by (rule otp_number_six_digit_value[OF assms])
  then have g: "generateOTP r = show_nat ?n" by (simp add: generateOTP_def toString_def)
  have lo: "(100000::nat) \<le> ?n" using rg by linarith
  have hi: "?n < (1000000::nat)" using rg by linarith
  have "10 ^ 5 \<le> ?n" using lo by simp
  moreover have "?n < 10 ^ Suc 5" using hi by simp
  ultimately have "length (show_nat ?n) = Suc 5" by (rule show_nat_length)
  then show ?thesis using show_nat_digits[of ?n] by (simp add: g)
qed

section \<open>The auth controller: signup and delivery\<close>

lemma jkeys_select_user:
  "jkeys (select_user u) = [''id'', ''name'', ''mobile'', ''email'', ''isEmailVerified'', ''createdAt'']"
  by (simp add: select_user_def)

text \<open>
  Claim C3, as the code has it. A signup with an email that no user has, when the
  store answers and \<open>Math.random()\<close> is a double in \<open>[0, 1)\<close>: the store gains one
  user, with the fields of the request and the hash of the password, not verified,
  whose \<open>otp\<close> is what \<open>generateOTP\<close> returned, the decimal form of a number from
  100000 to 999999, six digits \<open>0\<close> to \<open>9\<close>. Its \<open>otpExpiry\<close> is ten minutes after
  the instant at which the handler read its clock, just before the create, and its
  \<open>createdAt\<close> is the instant at which the store created the row. The answer is 201,
  with the delivery flag \<open>emailSent\<close>, and its \<open>data.user\<close> has the fields id, name,
  mobile, email, isEmailVerified and createdAt only, so neither the password hash
  nor the code.
\<close>

theorem signup_fresh_account:
  assumes nf: "fault w = None"
    and r: "0 \<le> random w" "random w < 1" "is_double (random w)"
    and fresh: "findUnique_email (users st) (sq_email req) = None"
  shows "\<exists>u. users (snd (signup lib w req st)) = users st @ [u] \<and>
             u_name u = sq_name req \<and> u_mobile u = sq_mobile req \<and>
             u_email u = sq_email req \<and>
             u_password u = bcrypt_hash lib (sq_password req) 12 \<and>
             \<not> u_isEmailVerified u \<and>
             u_otp u = Some (generateOTP (random w)) \<and>
             generateOTP (random w) = toString (otp_number (random w)) \<and>
             100000 \<le> otp_number (random w) \<and> otp_number (random w) \<le> 999999 \<and>
             length (generateOTP (random w)) = 6 \<and>
             set (generateOTP (random w)) \<subseteq> set ''0123456789'' \<and>
             u_otpExpiry u = Some (now w + 10 * 60 * 1000) \<and>
             u_createdAt u = store_now w \<and>
             status (fst (signup lib w req st)) = 201 \<and>
             response_data (fst (signup lib w req st)) ''emailSent'' = Some (JBool (smtp_ok w)) \<and>
             response_data (fst (signup lib w req st)) ''user'' =
               Some (JObj [(''id'', JNum (of_nat (u_id u))),
                           (''name'', JStr (u_name u)),
                           (''mobile'', JStr (u_mobile u)),
                           (''email'', JStr (u_email u)),
                           (''isEmailVerified'', JBool False),
                           (''createdAt'', JNum (of_int (u_createdAt u)))]) \<and>
             ''password'' \<notin> set (jkeys (select_user u)) \<and>
             ''otp'' \<notin> set (jkeys (select_user u)) \<and>
             ''otpExpiry'' \<notin> set (jkeys (select_user u))"
proof -
  let ?otp = "generateOTP (random w)"
  let ?u = "\<lparr>u_id = next_user_id st, u_name = sq_name req, u_mobile = sq_mobile req,
             u_email = sq_email req, u_password = bcrypt_hash lib (sq_password req) 12,
             u_isEmailVerified = False, u_otp = Some ?otp, u_otpExpiry = Some (now w + 10 * 60 * 1000),
             u_points = 0, u_role = ''USER'', u_createdAt = store_now w\<rparr>"
  have rg: "100000 \<le> otp_number (random w) \<and> otp_number (random w) \<le> 999999"
    by (rule otp_number_six_digit_value[OF r])
  have six: "length ?otp = 6 \<and> set ?otp \<subseteq> set ''0123456789''"
    by (rule generateOTP_six_digits[OF r])
  have g: "?otp = toString (otp_number (random w))" by (simp add: generateOTP_def)
  have st': "users (snd (signup lib w req st)) = users st @ [?u]"
    using nf fresh
    by (cases "smtp_ok w") (simp_all add: signup_def rejects_def user_create_def sendOTPEmail_def Let_def)
  have res: "status (fst (signup lib w req st)) = 201 \<and>
             response_data (fst (signup lib w req st)) ''emailSent'' = Some (JBool (smtp_ok w)) \<and>
             response_data (fst (signup lib w req st)) ''user'' = Some (select_user ?u)"
    using nf fresh
    by (cases "smtp_ok w")
       (simp_all add: signup_def rejects_def user_create_def sendOTPEmail_def Let_def response_data_def)
  have sel: "select_user ?u =
               JObj [(''id'', JNum (of_nat (u_id ?u))),
                     (''name'', JStr (u_name ?u)),
                     (''mobile'', JStr (u_mobile ?u)),
                     (''email'', JStr (u_email ?u)),
                     (''isEmailVerified'', JBool False),
                     (''createdAt'', JNum (of_int (u_createdAt ?u)))]"
    by (simp add: select_user_def)
  have keys: "''password'' \<notin> set (jkeys (select_user ?u)) \<and>
              ''otp'' \<notin> set (jkeys (select_user ?u)) \<and>
              ''otpExpiry'' \<notin> set (jkeys (select_user ?u))"
    by (simp add: jkeys_select_user)
  have fields: "u_name ?u = sq_name req \<and> u_mobile ?u = sq_mobile req \<and>
             u_email ?u = sq_email req \<and>
             u_password ?u = bcrypt_hash lib (sq_password req) 12 \<and>
             \<not> u_isEmailVerified ?u \<and>
             u_otp ?u = Some ?otp \<and>
             u_otpExpiry ?u = Some (now w + 10 * 60 * 1000) \<and>
             u_createdAt ?u = store_now w"
    by simp
  have "users (snd (signup lib w req st)) = users st @ [?u] \<and>
             u_name ?u = sq_name req \<and> u_mobile ?u = sq_mobile req \<and>
             u_email ?u = sq_email req \<and>
             u_password ?u = bcrypt_hash lib (sq_password req) 12 \<and>
             \<not> u_isEmailVerified ?u \<and>
             u_otp ?u = Some ?otp \<and>
             ?otp = toString (otp_number (random w)) \<and>
             100000 \<le> otp_number (random w) \<and> otp_number (random w) \<le> 999999 \<and>
             length ?otp = 6 \<and>
             set ?otp \<subseteq> set ''0123456789'' \<and>
             u_otpExpiry ?u = Some (now w + 10 * 60 * 1000) \<and>
             u_createdAt ?u = store_now w \<and>
             status (fst (signup lib w req st)) = 201 \<and>
             response_data (fst (signup lib w req st)) ''emailSent'' = Some (JBool (smtp_ok w)) \<and>
             response_data (fst (signup lib w req st)) ''user'' =
               Some (JObj [(''id'', JNum (of_nat (u_id ?u))),
                           (''name'', JStr (u_name ?u)),
                           (''mobile'', JStr (u_mobile ?u)),
                           (''email'', JStr (u_email ?u)),
                           (''isEmailVerified'', JBool False),
                           (''createdAt'', JNum (of_int (u_createdAt ?u)))]) \<and>
             ''password'' \<notin> set (jkeys (select_user ?u)) \<and>
             ''otp'' \<notin> set (jkeys (select_user ?u)) \<and>
             ''otpExpiry'' \<notin> set (jkeys (select_user ?u))"
    using st' rg six g res[unfolded sel] keys fields by blast
  then show ?thesis by (rule exI)
qed

lemma ex_random_double: "is_double (random ex_world)"
  by (simp add: ex_world_def is_double_def round_double_def ulp_def exponent_def pow2_def
        rne_def bitlen.simps Let_def)

text \<open>
  Dave signs up on the example store; the store creates his row one millisecond
  after the handler read its clock.
\<close>

theorem signup_fresh_account_witness:
  "fault ex_world = None \<and> 0 \<le> random ex_world \<and> random ex_world < 1 \<and>
   is_double (random ex_world) \<and>
   findUnique_email (users ex_store) (sq_email ex_signup) = None \<and>
   (\<exists>u. users (snd (signup ex_lib ex_world ex_signup ex_store)) = users ex_store @ [u] \<and>
        \<not> u_isEmailVerified u \<and>
        u_otp u = Some (generateOTP (random ex_world)) \<and>
        length (generateOTP (random ex_world)) = 6 \<and>
        u_otpExpiry u = Some (now ex_world + 10 * 60 * 1000) \<and>
        u_createdAt u = store_now ex_world \<and>
        status (fst (signup ex_lib ex_world ex_signup ex_store)) = 201)"
proof -
  have nf: "fault ex_world = None" by (simp add: ex_world_def)
  have r: "0 \<le> random ex_world" "random ex_world < 1" by (simp_all add: ex_world_def)
  have fresh: "findUnique_email (users ex_store) (sq_email ex_signup) = None"
    by (simp add: findUnique_email_def ex_store_def ex_signup_def alice_def bob_def carol_def)
  from signup_fresh_account[OF nf r ex_random_double fresh, of ex_lib]
  have "\<exists>u. users (snd (signup ex_lib ex_world ex_signup ex_store)) = users ex_store @ [u] \<and>
        \<not> u_isEmailVerified u \<and>
        u_otp u = Some (generateOTP (random ex_world)) \<and>
        length (generateOTP (random ex_world)) = 6 \<and>
        u_otpExpiry u = Some (now ex_world + 10 * 60 * 1000) \<and>
        u_createdAt u = store_now ex_world \<and>
        status (fst (signup ex_lib ex_world ex_signup ex_store)) = 201"
    by blast
  then show ?thesis using nf r ex_random_double fresh by blast
qed

text \<open>
  Claim C3 as stated fails where it says that \<open>otpExpiry\<close> is exactly ten minutes
  after creation: Dave's row is created at 500001, one millisecond after the handler
  read 500000 from its clock, and his code expires at 1100000, which is 599999
  milliseconds after \<open>createdAt\<close>.
\<close>

theorem signup_expiry_not_from_createdAt:
  "u_createdAt (last (users (snd (signup ex_lib ex_world ex_signup ex_store)))) = 500001 \<and>
   u_otpExpiry (last (users (snd (signup ex_lib ex_world ex_signup ex_store)))) = Some 1100000 \<and>
   u_otpExpiry (last (users (snd (signup ex_lib ex_world ex_signup ex_store))))
     \<noteq> Some (u_createdAt (last (users (snd (signup ex_lib ex_world ex_signup ex_store))))
              + 10 * 60 * 1000)"
proof -
  have fresh: "findUnique_email (users ex_store) (sq_email ex_signup) = None"
    by (simp add: findUnique_email_def ex_store_def ex_signup_def alice_def bob_def carol_def)
  have w: "fault ex_world = None" "now ex_world = 500000" "store_now ex_world = 500001"
    by (simp_all add: ex_world_def)
  show ?thesis
    using fresh w
    by (cases "smtp_ok ex_world")
       (simp_all add: signup_def rejects_def user_create_def sendOTPEmail_def Let_def)
qed

lemma ex_otp: "generateOTP (random ex_world) = ''550000''"
  by (simp add: ex_world_def generateOTP_def otp_number_def round_double_def ulp_def exponent_def
        pow2_def rne_def bitlen.simps Let_def toString_def show_nat.simps digit_char_def)

text \<open>
  Claim C4, on the example world, where \<open>NODE_ENV\<close> is \<open>production\<close> and the SMTP
  transport fails. Both requests succeed and the new code is stored, but both answers
  carry the code as \<open>developmentOTP\<close>: neither handler reads \<open>NODE_ENV\<close>, although
  the source marks the field "Only include in development". The answer of
  \<open>resendOTP\<close> has no \<open>emailSent\<close> flag.
\<close>

theorem development_otp_in_production:
  "NODE_ENV ex_world = ''production'' \<and> \<not> smtp_ok ex_world \<and>
   status (fst (signup ex_lib ex_world ex_signup ex_store)) = 201 \<and>
   response_data (fst (signup ex_lib ex_world ex_signup ex_store)) ''emailSent'' = Some (JBool False) \<and>
   response_data (fst (signup ex_lib ex_world ex_signup ex_store)) ''developmentOTP''
     = Some (JStr ''550000'') \<and>
   u_otp (last (users (snd (signup ex_lib ex_world ex_signup ex_store)))) = Some ''550000'' \<and>
   status (fst (resendOTP ex_lib ex_world \<lparr>rq_email = ''carol@example.com''\<rparr> ex_store)) = 200 \<and>
   jget (body (fst (resendOTP ex_lib ex_world \<lparr>rq_email = ''carol@example.com''\<rparr> ex_store)))
      ''developmentOTP'' = Some (JStr ''550000'') \<and>
   jget (body (fst (resendOTP ex_lib ex_world \<lparr>rq_email = ''carol@example.com''\<rparr> ex_store)))
      ''emailSent'' = None \<and>
   findUnique_email (users (snd (resendOTP ex_lib ex_world \<lparr>rq_email = ''carol@example.com''\<rparr> ex_store)))
      ''carol@example.com'' = Some (carol\<lparr>u_otp := Some ''550000'', u_otpExpiry := Some 1100000\<rparr>)"
proof -
  have fresh: "findUnique_email (users ex_store) (sq_email ex_signup) = None"
    by (simp add: findUnique_email_def ex_store_def ex_signup_def alice_def bob_def carol_def)
  have w: "NODE_ENV ex_world = ''production''" "\<not> smtp_ok ex_world" "fault ex_world = None"
    "now ex_world = 500000"
    by (simp_all add: ex_world_def)
  have s: "status (fst (signup ex_lib ex_world ex_signup ex_store)) = 201 \<and>
   response_data (fst (signup ex_lib ex_world ex_signup ex_store)) ''emailSent'' = Some (JBool False) \<and>
   response_data (fst (signup ex_lib ex_world ex_signup ex_store)) ''developmentOTP''
     = Some (JStr ''550000'') \<and>
   u_otp (last (users (snd (signup ex_lib ex_world ex_signup ex_store)))) = Some ''550000''"
    using fresh w
    by (simp add: signup_def rejects_def user_create_def sendOTPEmail_def Let_def response_data_def ex_otp)
  have uu: "user_update (u_id carol) (\<lambda>u. u\<lparr>u_otp := Some ''550000'', u_otpExpiry := Some 1100000\<rparr>) (users ex_store)
      = Some (carol\<lparr>u_otp := Some ''550000'', u_otpExpiry := Some 1100000\<rparr>,
              [alice, bob, carol\<lparr>u_otp := Some ''550000'', u_otpExpiry := Some 1100000\<rparr>])"
    by (simp add: ex_store_def alice_def bob_def carol_def)
  have c: "u_isEmailVerified carol = False" "u_name carol = ''Carol''"
    by (simp_all add: carol_def)
  have fin: "findUnique_email [alice, bob, carol\<lparr>u_otp := Some ''550000'', u_otpExpiry := Some 1100000\<rparr>]
      ''carol@example.com'' = Some (carol\<lparr>u_otp := Some ''550000'', u_otpExpiry := Some 1100000\<rparr>)"
    by (simp add: findUnique_email_def carol_def alice_def bob_def)
  have r: "status (fst (resendOTP ex_lib ex_world \<lparr>rq_email = ''carol@example.com''\<rparr> ex_store)) = 200 \<and>
   jget (body (fst (resendOTP ex_lib ex_world \<lparr>rq_email = ''carol@example.com''\<rparr> ex_store)))
      ''developmentOTP'' = Some (JStr ''550000'') \<and>
   jget (body (fst (resendOTP ex_lib ex_world \<lparr>rq_email = ''carol@example.com''\<rparr> ex_store)))
      ''emailSent'' = None \<and>
   findUnique_email (users (snd (resendOTP ex_lib ex_world \<lparr>rq_email = ''carol@example.com''\<rparr> ex_store)))
      ''carol@example.com'' = Some (carol\<lparr>u_otp := Some ''550000'', u_otpExpiry := Some 1100000\<rparr>)"
    using w c
    by (simp add: resendOTP_def rejects_def sendOTPEmail_def Let_def ex_otp uu fin)
  show ?thesis using w s r by simp
qed

section \<open>The invariant of the user records\<close>

lemma user_update_list_all:
  "user_update i f us = Some (v, vs) \<Longrightarrow> list_all P us \<Longrightarrow>
   (\<And>u. u \<in> set us \<Longrightarrow> u_id u = i \<Longrightarrow> P (f u)) \<Longrightarrow> list_all P vs"
proof (induction us arbitrary: v vs)
  case Nil
  then show ?case by simp
next
  case (Cons a us)
  show ?case
  proof (cases "u_id a = i")
    case True
    then show ?thesis using Cons.prems by auto
  next
    case False
    then obtain ws where r: "user_update i f us = Some (v, ws)" and vs: "vs = a # ws"
      using Cons.prems(1) by (auto split: option.splits)
    have "list_all P ws"
      using r Cons.prems(2) Cons.prems(3) by (intro Cons.IH[OF r]) auto
    then show ?thesis using vs Cons.prems(2) by simp
  qed
qed

lemma unique_id_same:
  assumes "distinct (map u_id us)" and "u \<in> set us" and "v \<in> set us" and "u_id u = u_id v"
  shows "u = v"
proof -
  have "inj_on u_id (set us)" using assms(1) by (simp add: distinct_map)
  then show ?thesis using assms(2-4) by (auto dest: inj_onD)
qed

lemma signup_invariant:
  assumes "store_invariant st"
  shows "store_invariant (snd (signup lib w req st))"
  using assms
  by (simp add: signup_def store_invariant_def otp_invariant_def user_create_def Let_def
           split: option.splits)

lemma login_invariant:
  assumes "store_invariant st"
  shows "store_invariant (snd (login lib w req st))"
  using assms by (simp add: login_def Let_def split: option.splits)

lemma verifyOTP_invariant:
  assumes inv: "store_invariant st"
  shows "store_invariant (snd (verifyOTP lib w req st))"
proof -
  have step: "list_all otp_invariant vs"
    if "user_update i (\<lambda>u. u\<lparr>u_isEmailVerified := True, u_otp := None, u_otpExpiry := None\<rparr>) (users st)
          = Some (v, vs)" for i v vs
    using that inv
    by (elim user_update_list_all) (simp_all add: store_invariant_def otp_invariant_def)
  show ?thesis
    using inv step
    by (auto simp add: verifyOTP_def Let_def store_invariant_def split: option.splits)
qed

lemma resendOTP_invariant:
  assumes ids: "unique_ids st" and inv: "store_invariant st"
  shows "store_invariant (snd (resendOTP lib w req st))"
proof (cases "findUnique_email (users st) (rq_email req)")
  case None
  then show ?thesis using inv by (simp add: resendOTP_def)
next
  case (Some user)
  then have m: "user \<in> set (users st)" by (auto simp: findUnique_email_def dest: find_Some_mem)
  have d: "distinct (map u_id (users st))" using ids by (simp add: unique_ids_def)
  show ?thesis
  proof (cases "u_isEmailVerified user")
    case True
    then show ?thesis using inv Some by (simp add: resendOTP_def)
  next
    case False
    have step: "list_all otp_invariant vs"
      if r: "user_update (u_id user) (\<lambda>u. u\<lparr>u_otp := Some c, u_otpExpiry := Some e\<rparr>) (users st)
            = Some (v, vs)" for c e v vs
    proof (rule user_update_list_all[OF r])
      show "list_all otp_invariant (users st)" using inv by (simp add: store_invariant_def)
    next
      fix u assume "u \<in> set (users st)" "u_id u = u_id user"
      then have "u = user" using unique_id_same[OF d _ m] by blast
      then show "otp_invariant (u\<lparr>u_otp := Some c, u_otpExpiry := Some e\<rparr>)"
        using False by (simp add: otp_invariant_def)
    qed
    show ?thesis
      using inv Some False step
      by (auto simp add: resendOTP_def Let_def store_invariant_def split: option.splits)
  qed
qed

text \<open>
  Claim C8. On a store with unique user ids where every user satisfies the invariant
  (\<open>otp\<close> and \<open>otpExpiry\<close> both set or both null; verified implies no \<open>otp\<close>), every
  user satisfies it again after \<open>signup\<close>, \<open>login\<close>, \<open>verifyOTP\<close> and \<open>resendOTP\<close>,
  whatever the request, the outcome and the faults of the store.
\<close>

theorem account_operations_preserve_invariant:
  assumes "unique_ids st" and "store_invariant st"
  shows "store_invariant (snd (signup lib w sreq st)) \<and>
         store_invariant (snd (login lib w lreq st)) \<and>
         store_invariant (snd (verifyOTP lib w vreq st)) \<and>
         store_invariant (snd (resendOTP lib w rreq st))"
  using assms
  by (simp add: signup_invariant login_invariant verifyOTP_invariant resendOTP_invariant)

lemma ex_store_invariant: "store_invariant ex_store"
  by (simp add: store_invariant_def otp_invariant_def ex_store_def alice_def bob_def carol_def)

text \<open>
  The example store satisfies the invariant, and so do its four successors.
\<close>

theorem account_operations_preserve_invariant_witness:
  "unique_ids ex_store \<and> store_invariant ex_store \<and>
   store_invariant (snd (signup ex_lib ex_world ex_signup ex_store)) \<and>
   store_invariant (snd (login ex_lib ex_world \<lparr>lq_email = ''carol@example.com'', lq_password = ''Carol1''\<rparr> ex_store)) \<and>
   store_invariant (snd (verifyOTP ex_lib ex_world (ex_verify ''carol@example.com'' ''123456'') ex_store)) \<and>
   store_invariant (snd (resendOTP ex_lib ex_world \<lparr>rq_email = ''carol@example.com''\<rparr> ex_store))"
  using account_operations_preserve_invariant[OF ex_store_unique ex_store_invariant]
    ex_store_unique ex_store_invariant
  by simp

section \<open>The reports controller: submission\<close>

lemma findUnique_id_mem: "findUnique_id us i = Some u \<Longrightarrow> u \<in> set us \<and> u_id u = i"
  by (auto simp: findUnique_id_def dest: find_Some_mem)

lemma findUnique_id_map:
  "findUnique_id (map (\<lambda>u. if u_id u = j then f u else u) us) i
     = map_option (\<lambda>u. if u_id u = j then f u else u) (findUnique_id us i)"
  if "\<And>u. u_id (f u) = u_id u"
  unfolding findUnique_id_def by (rule find_map_preserved) (simp add: that)

lemma submitReport_created:
  assumes c: "b_category req = Some category" "category \<noteq> []"
    and d: "b_description req = Some description" "description \<noteq> []"
    and l: "b_location req = Some loc"
    and p: "b_photo req = Some photo" "photo \<noteq> []"
    and owner: "findUnique_id (users st) (c_id usr) = Some owner"
    and ids: "unique_ids st"
    and f0: "fault w \<noteq> Some 0"
  shows "\<exists>r. r_status r = ''PENDING'' \<and> r_userId r = c_id usr \<and>
             reports (snd (submitReport w usr req st)) = reports st @ [r] \<and>
             (if fault w = Some 1
              then fst (submitReport w usr req st) = submit_error \<and>
                   users (snd (submitReport w usr req st)) = users st
              else status (fst (submitReport w usr req st)) = 201 \<and>
                   users (snd (submitReport w usr req st)) =
                     map (\<lambda>u. if u_id u = c_id usr then u\<lparr>u_points := u_points u + 10\<rparr> else u) (users st))"
proof -
  let ?r = "\<lparr>r_id = next_report_id st, r_category = category, r_description = description,
             r_latitude = latitude loc, r_longitude = longitude loc, r_address = address loc,
             r_photo = photo, r_status = ''PENDING'', r_userId = c_id usr,
             r_createdAt = now w, r_updatedAt = now w\<rparr>"
  have m: "owner \<in> set (users st)" and oid: "u_id owner = c_id usr"
    using findUnique_id_mem[OF owner] by simp_all
  have dd: "distinct (map u_id (users st))" using ids by (simp add: unique_ids_def)
  have uu: "user_update (c_id usr) f (users st)
      = Some (f owner, map (\<lambda>u. if u_id u = c_id usr then f u else u) (users st))" for f
    using user_update_distinct[OF dd m, of f] by (simp add: oid)
  have "r_status ?r = ''PENDING'' \<and> r_userId ?r = c_id usr \<and>
             reports (snd (submitReport w usr req st)) = reports st @ [?r] \<and>
             (if fault w = Some 1
              then fst (submitReport w usr req st) = submit_error \<and>
                   users (snd (submitReport w usr req st)) = users st
              else status (fst (submitReport w usr req st)) = 201 \<and>
                   users (snd (submitReport w usr req st)) =
                     map (\<lambda>u. if u_id u = c_id usr then u\<lparr>u_points := u_points u + 10\<rparr> else u) (users st))"
    using c d l p owner f0
    by (simp add: submitReport_def rejects_def report_create_def Let_def uu)
  then show ?thesis by (rule exI)
qed

lemma submitReport_201:
  assumes "status (fst (submitReport w usr req st)) = 201"
  shows "\<exists>category description loc photo owner.
           b_category req = Some category \<and> category \<noteq> [] \<and>
           b_description req = Some description \<and> description \<noteq> [] \<and>
           b_location req = Some loc \<and> b_photo req = Some photo \<and> photo \<noteq> [] \<and>
           findUnique_id (users st) (c_id usr) = Some owner \<and>
           fault w \<noteq> Some 0 \<and> fault w \<noteq> Some 1"
  using assms
  by (auto simp add: submitReport_def rejects_def report_create_def Let_def
        missing_fields_def submit_error_def failure_def
      split: option.splits if_splits)


lemma points_of_map:
  "points_of (st\<lparr>users := map (\<lambda>u. if u_id u = j then u\<lparr>u_points := u_points u + n\<rparr> else u) (users st)\<rparr>) i
     = (if i = j then map_option (\<lambda>p. p + n) (points_of st i) else points_of st i)"
proof -
  have "findUnique_id (map (\<lambda>u. if u_id u = j then u\<lparr>u_points := u_points u + n\<rparr> else u) (users st)) i
     = map_option (\<lambda>u. if u_id u = j then u\<lparr>u_points := u_points u + n\<rparr> else u) (findUnique_id (users st) i)"
    by (rule findUnique_id_map) simp
  then show ?thesis
    by (cases "findUnique_id (users st) i") (auto simp: points_of_def dest: findUnique_id_mem)
qed

lemma points_of_users: "users a = users b \<Longrightarrow> points_of a i = points_of b i"
  by (simp add: points_of_def)

text \<open>
  Claim C6. When \<open>submitReport\<close> answers 201 on a store with unique user ids: the
  report table gains one row, with status PENDING and the caller as owner; the user
  table is the old one with 10 added to the points of the caller's row and every
  other row as it was; so the caller has 10 points more and every other id has the
  points it had.
\<close>

theorem submit_awards_owner_only:
  assumes ok: "status (fst (submitReport w usr req st)) = 201" and ids: "unique_ids st"
  shows "(\<exists>r. r_status r = ''PENDING'' \<and> r_userId r = c_id usr \<and>
              reports (snd (submitReport w usr req st)) = reports st @ [r]) \<and>
         users (snd (submitReport w usr req st)) =
           map (\<lambda>u. if u_id u = c_id usr then u\<lparr>u_points := u_points u + 10\<rparr> else u) (users st) \<and>
         (\<exists>owner. findUnique_id (users st) (c_id usr) = Some owner \<and>
              points_of (snd (submitReport w usr req st)) (c_id usr) = Some (u_points owner + 10)) \<and>
         (\<forall>i. i \<noteq> c_id usr \<longrightarrow>
              points_of (snd (submitReport w usr req st)) i = points_of st i)"
proof -
  let ?st' = "snd (submitReport w usr req st)"
  let ?us' = "map (\<lambda>u. if u_id u = c_id usr then u\<lparr>u_points := u_points u + 10\<rparr> else u) (users st)"
  from submitReport_201[OF ok] obtain category description loc photo owner where
    f: "b_category req = Some category" "category \<noteq> []"
       "b_description req = Some description" "description \<noteq> []"
       "b_location req = Some loc" "b_photo req = Some photo" "photo \<noteq> []"
    and owner: "findUnique_id (users st) (c_id usr) = Some owner"
    and nf: "fault w \<noteq> Some 0" "fault w \<noteq> Some 1"
    by blast
  from submitReport_created[OF f owner ids nf(1)] nf(2)
  obtain r where r: "r_status r = ''PENDING''" "r_userId r = c_id usr"
      "reports ?st' = reports st @ [r]"
    and us: "users ?st' = ?us'"
    by auto
  have pts: "points_of ?st' i = (if i = c_id usr then map_option (\<lambda>p. p + 10) (points_of st i)
                                 else points_of st i)" for i
    using points_of_users[of ?st' "st\<lparr>users := ?us'\<rparr>" i] us
    by (simp add: points_of_map)
  have own: "points_of ?st' (c_id usr) = Some (u_points owner + 10)"
    using owner by (simp add: pts) (simp add: points_of_def)
  show ?thesis using r us owner own pts by auto
qed

lemma ex_owner: "findUnique_id (users ex_store) (c_id carol_caller) = Some carol"
  by (simp add: findUnique_id_def ex_store_def carol_caller_def alice_def bob_def carol_def)

lemma ex_submit_created:
  "\<exists>r. r_status r = ''PENDING'' \<and> r_userId r = c_id carol_caller \<and>
       reports (snd (submitReport w carol_caller ex_submit ex_store)) = reports ex_store @ [r] \<and>
       (if fault w = Some 1
        then fst (submitReport w carol_caller ex_submit ex_store) = submit_error \<and>
             users (snd (submitReport w carol_caller ex_submit ex_store)) = users ex_store
        else status (fst (submitReport w carol_caller ex_submit ex_store)) = 201 \<and>
             users (snd (submitReport w carol_caller ex_submit ex_store)) =
               map (\<lambda>u. if u_id u = c_id carol_caller then u\<lparr>u_points := u_points u + 10\<rparr> else u)
                 (users ex_store))"
  if "fault w \<noteq> Some 0"
proof -
  have f: "b_category ex_submit = Some ''waste-dumping''" "''waste-dumping'' \<noteq> []"
    "b_description ex_submit = Some ''Plastic waste near the mangroves''"
    "''Plastic waste near the mangroves'' \<noteq> []"
    "b_location ex_submit = Some \<lparr>latitude = 21, longitude = 72, address = ''Creek road''\<rparr>"
    "b_photo ex_submit = Some ''base64''" "''base64'' \<noteq> []"
    by (simp_all add: ex_submit_def)
  show ?thesis by (rule submitReport_created[OF f ex_owner ex_store_unique that])
qed

text \<open>
  Carol (20 points) submits on the example store: she has 30 afterwards, Alice still
  30 and Bob still 0.
\<close>

theorem submit_awards_owner_only_witness:
  "status (fst (submitReport ex_world carol_caller ex_submit ex_store)) = 201 \<and>
   unique_ids ex_store \<and>
   points_of ex_store 3 = Some 20 \<and>
   points_of (snd (submitReport ex_world carol_caller ex_submit ex_store)) 3 = Some 30 \<and>
   points_of (snd (submitReport ex_world carol_caller ex_submit ex_store)) 1 = Some 30 \<and>
   points_of (snd (submitReport ex_world carol_caller ex_submit ex_store)) 2 = Some 0"
proof -
  have nf: "fault ex_world \<noteq> Some 0" "fault ex_world \<noteq> Some 1" by (simp_all add: ex_world_def)
  have ok: "status (fst (submitReport ex_world carol_caller ex_submit ex_store)) = 201"
    using ex_submit_created[OF nf(1)] nf(2) by auto
  have p: "points_of ex_store 3 = Some 20" "points_of ex_store 1 = Some 30" "points_of ex_store 2 = Some 0"
    by (simp_all add: points_of_def findUnique_id_def ex_store_def alice_def bob_def carol_def)
  have c: "c_id carol_caller = 3" by (simp add: carol_caller_def)
  have o: "findUnique_id (users ex_store) 3 = Some carol" using ex_owner by (simp add: c)
  have pc: "u_points carol = 20" by (simp add: carol_def)
  note T = submit_awards_owner_only[OF ok ex_store_unique]
  have 3: "points_of (snd (submitReport ex_world carol_caller ex_submit ex_store)) 3 = Some 30"
    using T o pc by (auto simp: c)
  have 1: "points_of (snd (submitReport ex_world carol_caller ex_submit ex_store)) 1 = Some 30"
    using T p(2) by (simp add: c)
  have 2: "points_of (snd (submitReport ex_world carol_caller ex_submit ex_store)) 2 = Some 0"
    using T p(3) by (simp add: c)
  show ?thesis using ok ex_store_unique p(1) 1 2 3 by simp
qed

text \<open>
  Claim C2, as the code has it. \<open>submitReport\<close> creates the report and awards the
  points in two store calls, one after the other, with no transaction around them.
  For a request with all fields by an existing user: when the creation rejects,
  nothing is written; when the creation succeeds and the points update rejects, the
  answer is 500, the new report stays in the table and no points are awarded; when
  both succeed, the answer is 201, the report is in the table and the owner has 10
  points more.
\<close>

theorem submitReport_writes_separately:
  assumes c: "b_category req = Some category" "category \<noteq> []"
    and d: "b_description req = Some description" "description \<noteq> []"
    and l: "b_location req = Some loc"
    and p: "b_photo req = Some photo" "photo \<noteq> []"
    and owner: "findUnique_id (users st) (c_id usr) = Some owner"
    and ids: "unique_ids st"
  shows "(fault w = Some 0 \<longrightarrow> submitReport w usr req st = (submit_error, st)) \<and>
         (fault w = Some 1 \<longrightarrow>
            fst (submitReport w usr req st) = submit_error \<and>
            (\<exists>r. r_status r = ''PENDING'' \<and> r_userId r = c_id usr \<and>
                 reports (snd (submitReport w usr req st)) = reports st @ [r]) \<and>
            users (snd (submitReport w usr req st)) = users st) \<and>
         (fault w \<noteq> Some 0 \<and> fault w \<noteq> Some 1 \<longrightarrow>
            status (fst (submitReport w usr req st)) = 201 \<and>
            (\<exists>r. r_status r = ''PENDING'' \<and> r_userId r = c_id usr \<and>
                 reports (snd (submitReport w usr req st)) = reports st @ [r]) \<and>
            points_of (snd (submitReport w usr req st)) (c_id usr) = Some (u_points owner + 10))"
proof (intro conjI impI)
  assume "fault w = Some 0"
  then show "submitReport w usr req st = (submit_error, st)"
    using c d l p by (simp add: submitReport_def rejects_def)
next
  assume f1: "fault w = Some 1"
  then have f0: "fault w \<noteq> Some 0" by simp
  from submitReport_created[OF c d l p owner ids f0] f1
  show "fst (submitReport w usr req st) = submit_error"
    and "\<exists>r. r_status r = ''PENDING'' \<and> r_userId r = c_id usr \<and>
                 reports (snd (submitReport w usr req st)) = reports st @ [r]"
    and "users (snd (submitReport w usr req st)) = users st"
    by auto
next
  assume f: "fault w \<noteq> Some 0 \<and> fault w \<noteq> Some 1"
  then have f0: "fault w \<noteq> Some 0" and f1: "fault w \<noteq> Some 1" by simp_all
  let ?st' = "snd (submitReport w usr req st)"
  let ?us' = "map (\<lambda>u. if u_id u = c_id usr then u\<lparr>u_points := u_points u + 10\<rparr> else u) (users st)"
  from submitReport_created[OF c d l p owner ids f0] f1
  show s: "status (fst (submitReport w usr req st)) = 201"
    and "\<exists>r. r_status r = ''PENDING'' \<and> r_userId r = c_id usr \<and>
                 reports (snd (submitReport w usr req st)) = reports st @ [r]"
    by auto
  from submitReport_created[OF c d l p owner ids f0] f1
  have us: "users ?st' = ?us'" by auto
  have "points_of ?st' (c_id usr) = map_option (\<lambda>p. p + 10) (points_of st (c_id usr))"
    using points_of_users[of ?st' "st\<lparr>users := ?us'\<rparr>" "c_id usr"] us
    by (simp add: points_of_map)
  then show "points_of ?st' (c_id usr) = Some (u_points owner + 10)"
    using owner by (simp add: points_of_def)
qed

text \<open>
  Carol's submission on the example store: once with the creation rejecting, once
  with the points update rejecting and once with the store answering.
\<close>

theorem submitReport_writes_separately_witness:
  "b_category ex_submit = Some ''waste-dumping'' \<and>
   findUnique_id (users ex_store) (c_id carol_caller) = Some carol \<and>
   submitReport (ex_world\<lparr>fault := Some 0\<rparr>) carol_caller ex_submit ex_store
     = (submit_error, ex_store) \<and>
   fault (ex_world\<lparr>fault := Some 1\<rparr>) = Some 1 \<and>
   fst (submitReport (ex_world\<lparr>fault := Some 1\<rparr>) carol_caller ex_submit ex_store) = submit_error \<and>
   users (snd (submitReport (ex_world\<lparr>fault := Some 1\<rparr>) carol_caller ex_submit ex_store))
     = users ex_store \<and>
   status (fst (submitReport ex_world carol_caller ex_submit ex_store)) = 201 \<and>
   points_of (snd (submitReport ex_world carol_caller ex_submit ex_store)) (c_id carol_caller)
     = Some (u_points carol + 10)"
proof -
  have f: "b_category ex_submit = Some ''waste-dumping''" "''waste-dumping'' \<noteq> []"
    "b_description ex_submit = Some ''Plastic waste near the mangroves''"
    "''Plastic waste near the mangroves'' \<noteq> []"
    "b_location ex_submit = Some \<lparr>latitude = 21, longitude = 72, address = ''Creek road''\<rparr>"
    "b_photo ex_submit = Some ''base64''" "''base64'' \<noteq> []"
    by (simp_all add: ex_submit_def)
  note T = submitReport_writes_separately[OF f ex_owner ex_store_unique]
  have w1: "fault (ex_world\<lparr>fault := Some 1\<rparr>) = Some 1" by simp
  have w2: "fault (ex_world\<lparr>fault := Some 0\<rparr>) = Some 0" by simp
  have w0: "fault ex_world \<noteq> Some 0 \<and> fault ex_world \<noteq> Some 1" by (simp add: ex_world_def)
  show ?thesis
    using T[of "ex_world\<lparr>fault := Some 1\<rparr>"] T[of ex_world] T[of "ex_world\<lparr>fault := Some 0\<rparr>"]
      w1 w2 w0 f(1) ex_owner
    by simp
qed

text \<open>
  Claim C2 as stated fails: Carol submits, the report is created, the points update
  rejects. The answer is 500, report 16 is in the table, owned by Carol, and Carol
  has the 20 points she had.
\<close>

theorem submitReport_report_without_points:
  "fst (submitReport (ex_world\<lparr>fault := Some 1\<rparr>) carol_caller ex_submit ex_store) = submit_error \<and>
   reports (snd (submitReport (ex_world\<lparr>fault := Some 1\<rparr>) carol_caller ex_submit ex_store))
     = reports ex_store @
       [\<lparr>r_id = 16, r_category = ''waste-dumping'',
         r_description = ''Plastic waste near the mangroves'',
         r_latitude = 21, r_longitude = 72, r_address = ''Creek road'', r_photo = ''base64'',
         r_status = ''PENDING'', r_userId = 3, r_createdAt = 500000, r_updatedAt = 500000\<rparr>] \<and>
   points_of ex_store 3 = Some 20 \<and>
   points_of (snd (submitReport (ex_world\<lparr>fault := Some 1\<rparr>) carol_caller ex_submit ex_store)) 3
     = Some 20"
proof -
  have o: "findUnique_id (users ex_store) 3 = Some carol"
    by (simp add: findUnique_id_def ex_store_def alice_def bob_def carol_def)
  have n: "next_report_id ex_store = 16" by (simp add: ex_store_def)
  have p: "points_of ex_store 3 = Some 20" by (simp add: points_of_def o carol_def)
  have "fst (submitReport (ex_world\<lparr>fault := Some 1\<rparr>) carol_caller ex_submit ex_store) = submit_error \<and>
    reports (snd (submitReport (ex_world\<lparr>fault := Some 1\<rparr>) carol_caller ex_submit ex_store))
      = reports ex_store @
        [\<lparr>r_id = 16, r_category = ''waste-dumping'',
          r_description = ''Plastic waste near the mangroves'',
          r_latitude = 21, r_longitude = 72, r_address = ''Creek road'', r_photo = ''base64'',
          r_status = ''PENDING'', r_userId = 3, r_createdAt = 500000, r_updatedAt = 500000\<rparr>] \<and>
    users (snd (submitReport (ex_world\<lparr>fault := Some 1\<rparr>) carol_caller ex_submit ex_store))
      = users ex_store"
    using o n
    by (simp add: submitReport_def rejects_def report_create_def Let_def carol_caller_def
          ex_submit_def ex_world_def)
  then show ?thesis using p o by (simp add: points_of_def)
qed

section \<open>The reports controller: access to one report\<close>

lemma report_update_found:
  "report_findUnique rs i = Some r \<Longrightarrow> r_id (f r) = i \<Longrightarrow>
   \<exists>rs'. report_update i f rs = Some (f r, rs') \<and> length rs' = length rs \<and>
         report_findUnique rs' i = Some (f r)"
proof (induction rs)
  case Nil
  then show ?case by (simp add: report_findUnique_def)
next
  case (Cons a rs)
  show ?case
  proof (cases "r_id a = i")
    case True
    then show ?thesis using Cons.prems by (simp add: report_findUnique_def)
  next
    case False
    then have "report_findUnique rs i = Some r" using Cons.prems(1) by (simp add: report_findUnique_def)
    from Cons.IH[OF this Cons.prems(2)] obtain rs' where
      "report_update i f rs = Some (f r, rs')" "length rs' = length rs"
      "report_findUnique rs' i = Some (f r)" by blast
    then show ?thesis using False by (simp add: report_findUnique_def)
  qed
qed

lemma report_delete_found:
  "report_findUnique rs i = Some r \<Longrightarrow> report_delete i rs = Some (remove1 r rs)"
proof (induction rs)
  case Nil
  then show ?case by (simp add: report_findUnique_def)
next
  case (Cons a rs)
  show ?case
  proof (cases "r_id a = i")
    case True
    then show ?thesis using Cons.prems by (simp add: report_findUnique_def)
  next
    case False
    then have f: "report_findUnique rs i = Some r" using Cons.prems by (simp add: report_findUnique_def)
    then have "r_id r = i" by (auto simp: report_findUnique_def dest: find_Some_mem)
    then have "a \<noteq> r" using False by auto
    then show ?thesis using False Cons.IH[OF f] by simp
  qed
qed

lemma updateData_id: "r_id (updateData w usr req r) = r_id r"
  by (simp add: updateData_def Let_def split: option.splits)

lemma updateData_owner: "r_userId (updateData w usr req r) = r_userId r"
  by (simp add: updateData_def Let_def split: option.splits)

text \<open>
  Claim C7. When the store answers, \<open>getReportById\<close>, \<open>updateReport\<close> and
  \<open>deleteReport\<close> answer 404 "Report not found" for an id that no report has; for an
  existing report they answer 403 to a caller who is neither its owner nor of role
  ADMIN, and leave the store as it is; for the owner or an ADMIN the check passes:
  the report is returned, respectively updated in place, respectively removed, with
  status 200.
\<close>

theorem report_access_control:
  assumes nf: "fault w = None"
  shows "(report_findUnique (reports st) i = None \<longrightarrow>
            getReportById w usr i st = (failure 404 ''Report not found'', st) \<and>
            updateReport w usr i req st = (failure 404 ''Report not found'', st) \<and>
            deleteReport w usr i st = (failure 404 ''Report not found'', st)) \<and>
         (\<forall>r. report_findUnique (reports st) i = Some r \<longrightarrow>
            (r_userId r \<noteq> c_id usr \<and> c_role usr \<noteq> ''ADMIN'' \<longrightarrow>
               getReportById w usr i st =
                 (failure 403 ''Access denied. You can only view your own reports.'', st) \<and>
               updateReport w usr i req st =
                 (failure 403 ''Access denied. You can only update your own reports.'', st) \<and>
               deleteReport w usr i st =
                 (failure 403 ''Access denied. You can only delete your own reports.'', st)) \<and>
            (r_userId r = c_id usr \<or> c_role usr = ''ADMIN'' \<longrightarrow>
               getReportById w usr i st =
                 (\<lparr>status = 200, body = JObj
                     [(''success'', JBool True),
                      (''data'', JObj
                         [(''report'', report_json r (include_user (users st) (r_userId r)))])]\<rparr>,
                  st) \<and>
               status (fst (updateReport w usr i req st)) = 200 \<and>
               users (snd (updateReport w usr i req st)) = users st \<and>
               length (reports (snd (updateReport w usr i req st))) = length (reports st) \<and>
               report_findUnique (reports (snd (updateReport w usr i req st))) i
                 = Some (updateData w usr req r) \<and>
               deleteReport w usr i st =
                 (\<lparr>status = 200, body = JObj
                     [(''success'', JBool True),
                      (''message'', JStr ''Report deleted successfully'')]\<rparr>,
                  st\<lparr>reports := remove1 r (reports st)\<rparr>)))"
proof (intro conjI allI impI)
  assume n: "report_findUnique (reports st) i = None"
  show "getReportById w usr i st = (failure 404 ''Report not found'', st)"
    using nf n by (simp add: getReportById_def rejects_def)
  show "updateReport w usr i req st = (failure 404 ''Report not found'', st)"
    using nf n by (simp add: updateReport_def rejects_def)
  show "deleteReport w usr i st = (failure 404 ''Report not found'', st)"
    using nf n by (simp add: deleteReport_def rejects_def)
next
  fix r
  assume f: "report_findUnique (reports st) i = Some r"
    and d: "r_userId r \<noteq> c_id usr \<and> c_role usr \<noteq> ''ADMIN''"
  show "getReportById w usr i st =
          (failure 403 ''Access denied. You can only view your own reports.'', st)"
    using nf f d by (simp add: getReportById_def rejects_def)
  show "updateReport w usr i req st =
          (failure 403 ''Access denied. You can only update your own reports.'', st)"
    using nf f d by (simp add: updateReport_def rejects_def)
  show "deleteReport w usr i st =
          (failure 403 ''Access denied. You can only delete your own reports.'', st)"
    using nf f d by (simp add: deleteReport_def rejects_def)
next
  fix r
  assume f: "report_findUnique (reports st) i = Some r"
    and a: "r_userId r = c_id usr \<or> c_role usr = ''ADMIN''"
  have rid: "r_id r = i" using f by (auto simp: report_findUnique_def dest: find_Some_mem)
  show "getReportById w usr i st =
          (\<lparr>status = 200, body = JObj
              [(''success'', JBool True),
               (''data'', JObj
                  [(''report'', report_json r (include_user (users st) (r_userId r)))])]\<rparr>, st)"
    using nf f a by (auto simp add: getReportById_def rejects_def)
  from report_update_found[OF f, of "updateData w usr req"] rid obtain rs' where
    u: "report_update i (updateData w usr req) (reports st) = Some (updateData w usr req r, rs')"
    and len: "length rs' = length (reports st)"
    and fnd: "report_findUnique rs' i = Some (updateData w usr req r)"
    by (auto simp: updateData_id)
  have upd: "updateReport w usr i req st =
      (\<lparr>status = 200, body = JObj
          [(''success'', JBool True),
           (''message'', JStr ''Report updated successfully''),
           (''data'', JObj
              [(''report'', report_json (updateData w usr req r)
                              (include_user (users st) (r_userId (updateData w usr req r))))])]\<rparr>,
       st\<lparr>reports := rs'\<rparr>)"
    using nf f a u by (auto simp add: updateReport_def rejects_def)
  show "status (fst (updateReport w usr i req st)) = 200" by (simp add: upd)
  show "users (snd (updateReport w usr i req st)) = users st" by (simp add: upd)
  show "length (reports (snd (updateReport w usr i req st))) = length (reports st)"
    by (simp add: upd len)
  show "report_findUnique (reports (snd (updateReport w usr i req st))) i
          = Some (updateData w usr req r)"
    by (simp add: upd fnd)
  show "deleteReport w usr i st =
          (\<lparr>status = 200, body = JObj
              [(''success'', JBool True),
               (''message'', JStr ''Report deleted successfully'')]\<rparr>,
           st\<lparr>reports := remove1 r (reports st)\<rparr>)"
    using nf f a report_delete_found[OF f] by (auto simp add: deleteReport_def rejects_def)
qed

lemma ex_report_find: "report_findUnique (reports ex_store) 5 = Some (ex_report 5)"
  by (simp add: report_findUnique_def ex_store_def ex_report_def)

lemma ex_report_missing: "report_findUnique (reports ex_store) 99 = None"
  by (simp add: report_findUnique_def ex_store_def ex_report_def)

text \<open>
  Report 5 of the example store belongs to Carol: Bob is refused, Carol and the
  administrator Alice pass; no report has id 99.
\<close>

theorem report_access_control_witness:
  "fault ex_world = None \<and>
   report_findUnique (reports ex_store) 99 = None \<and>
   getReportById ex_world bob_caller 99 ex_store = (failure 404 ''Report not found'', ex_store) \<and>
   report_findUnique (reports ex_store) 5 = Some (ex_report 5) \<and>
   r_userId (ex_report 5) = 3 \<and>
   status (fst (getReportById ex_world bob_caller 5 ex_store)) = 403 \<and>
   status (fst (updateReport ex_world bob_caller 5 ex_patch ex_store)) = 403 \<and>
   status (fst (deleteReport ex_world bob_caller 5 ex_store)) = 403 \<and>
   status (fst (getReportById ex_world carol_caller 5 ex_store)) = 200 \<and>
   status (fst (updateReport ex_world carol_caller 5 ex_patch ex_store)) = 200 \<and>
   status (fst (deleteReport ex_world carol_caller 5 ex_store)) = 200 \<and>
   status (fst (getReportById ex_world alice_caller 5 ex_store)) = 200 \<and>
   status (fst (updateReport ex_world alice_caller 5 ex_patch ex_store)) = 200 \<and>
   status (fst (deleteReport ex_world alice_caller 5 ex_store)) = 200"
proof -
  have nf: "fault ex_world = None" by (simp add: ex_world_def)
  have o: "r_userId (ex_report 5) = 3" by (simp add: ex_report_def)
  have b: "r_userId (ex_report 5) \<noteq> c_id bob_caller" "c_role bob_caller \<noteq> ''ADMIN''"
    by (simp_all add: ex_report_def bob_caller_def)
  have c: "r_userId (ex_report 5) = c_id carol_caller"
    by (simp add: ex_report_def carol_caller_def)
  have a: "c_role alice_caller = ''ADMIN''"
    by (simp add: alice_caller_def)
  note T = report_access_control[OF nf, of ex_store]
  have 1: "getReportById ex_world bob_caller 99 ex_store = (failure 404 ''Report not found'', ex_store)"
    using T[of 99 bob_caller ex_patch] ex_report_missing by blast
  have 2: "status (fst (getReportById ex_world bob_caller 5 ex_store)) = 403 \<and>
   status (fst (updateReport ex_world bob_caller 5 ex_patch ex_store)) = 403 \<and>
   status (fst (deleteReport ex_world bob_caller 5 ex_store)) = 403"
    using T[of 5 bob_caller ex_patch] ex_report_find b by (simp add: failure_def)
  have 3: "status (fst (getReportById ex_world carol_caller 5 ex_store)) = 200 \<and>
   status (fst (updateReport ex_world carol_caller 5 ex_patch ex_store)) = 200 \<and>
   status (fst (deleteReport ex_world carol_caller 5 ex_store)) = 200"
    using T[of 5 carol_caller ex_patch] ex_report_find c by simp
  have 4: "status (fst (getReportById ex_world alice_caller 5 ex_store)) = 200 \<and>
   status (fst (updateReport ex_world alice_caller 5 ex_patch ex_store)) = 200 \<and>
   status (fst (deleteReport ex_world alice_caller 5 ex_store)) = 200"
    using T[of 5 alice_caller ex_patch] ex_report_find a by simp
  show ?thesis using nf ex_report_missing ex_report_find o 1 2 3 4 by simp
qed

section \<open>The reports controller: listings\<close>













section \<open>The key constraint of the user table is preserved\<close>

text \<open>
  The theorems above assume unique user ids. A store with unique ids below
  \<open>next_user_id\<close> stays so under every handler that writes users.
\<close>

lemma user_update_ids:
  "user_update i f us = Some (v, vs) \<Longrightarrow> (\<And>u. u_id (f u) = u_id u) \<Longrightarrow>
   map u_id vs = map u_id us"
proof (induction us arbitrary: v vs)
  case Nil
  then show ?case by simp
next
  case (Cons a us)
  show ?case
  proof (cases "u_id a = i")
    case True
    then show ?thesis using Cons.prems by auto
  next
    case False
    then obtain ws where r: "user_update i f us = Some (v, ws)" and vs: "vs = a # ws"
      using Cons.prems(1) by (auto split: option.splits)
    have "map u_id ws = map u_id us" by (rule Cons.IH[OF r Cons.prems(2)])
    then show ?thesis using vs by simp
  qed
qed

lemma ids_of_signup:
  "map u_id (users (snd (signup lib w req st))) = map u_id (users st) \<and>
     next_user_id (snd (signup lib w req st)) = next_user_id st \<or>
   map u_id (users (snd (signup lib w req st))) = map u_id (users st) @ [next_user_id st] \<and>
     next_user_id (snd (signup lib w req st)) = Suc (next_user_id st)"
  by (simp add: signup_def user_create_def Let_def split: option.splits)

lemma ids_of_verifyOTP:
  "map u_id (users (snd (verifyOTP lib w req st))) = map u_id (users st) \<and>
   next_user_id (snd (verifyOTP lib w req st)) = next_user_id st"
proof -
  have "map u_id vs = map u_id (users st)"
    if "user_update i (\<lambda>u. u\<lparr>u_isEmailVerified := True, u_otp := None, u_otpExpiry := None\<rparr>) (users st)
          = Some (v, vs)" for i v vs
    using that by (rule user_update_ids) simp
  then show ?thesis
    by (auto simp add: verifyOTP_def Let_def split: option.splits)
qed

lemma ids_of_resendOTP:
  "map u_id (users (snd (resendOTP lib w req st))) = map u_id (users st) \<and>
   next_user_id (snd (resendOTP lib w req st)) = next_user_id st"
proof -
  have "map u_id vs = map u_id (users st)"
    if "user_update i (\<lambda>u. u\<lparr>u_otp := Some c, u_otpExpiry := Some e\<rparr>) (users st) = Some (v, vs)"
    for i c e v vs
    using that by (rule user_update_ids) simp
  then show ?thesis
    by (auto simp add: resendOTP_def Let_def split: option.splits)
qed

lemma ids_of_submitReport:
  "map u_id (users (snd (submitReport w usr req st))) = map u_id (users st) \<and>
   next_user_id (snd (submitReport w usr req st)) = next_user_id st"
proof -
  have "map u_id vs = map u_id us"
    if "user_update i (\<lambda>u. u\<lparr>u_points := u_points u + n\<rparr>) us = Some (v, vs)" for i n v vs us
    using that by (rule user_update_ids) simp
  then show ?thesis
    by (auto simp add: submitReport_def report_create_def Let_def split: option.splits)
qed

lemma keys_iff:
  "(unique_ids st \<and> fresh_ids st) =
   (distinct (map u_id (users st)) \<and> (\<forall>i \<in> set (map u_id (users st)). i < next_user_id st))"
  by (auto simp add: unique_ids_def fresh_ids_def list_all_iff)

lemma keys_step:
  "distinct ids \<and> (\<forall>i \<in> set ids. i < n) \<Longrightarrow>
   distinct (ids @ [n]) \<and> (\<forall>i \<in> set (ids @ [n]). i < Suc n)"
  by (auto simp: less_Suc_eq)

lemma keys_preserved:
  assumes k: "unique_ids st \<and> fresh_ids st"
  shows "unique_ids (snd (signup lib w sreq st)) \<and> fresh_ids (snd (signup lib w sreq st))"
    and "unique_ids (snd (verifyOTP lib w vreq st)) \<and> fresh_ids (snd (verifyOTP lib w vreq st))"
    and "unique_ids (snd (resendOTP lib w rreq st)) \<and> fresh_ids (snd (resendOTP lib w rreq st))"
    and "unique_ids (snd (submitReport w usr breq st)) \<and> fresh_ids (snd (submitReport w usr breq st))"
proof -
  have K: "distinct (map u_id (users st)) \<and> (\<forall>i \<in> set (map u_id (users st)). i < next_user_id st)"
    using k keys_iff[of st] by blast
  show "unique_ids (snd (signup lib w sreq st)) \<and> fresh_ids (snd (signup lib w sreq st))"
    unfolding keys_iff using ids_of_signup[of lib w sreq st] K keys_step[OF K] by metis
  show "unique_ids (snd (verifyOTP lib w vreq st)) \<and> fresh_ids (snd (verifyOTP lib w vreq st))"
    unfolding keys_iff using ids_of_verifyOTP[of lib w vreq st] K by metis
  show "unique_ids (snd (resendOTP lib w rreq st)) \<and> fresh_ids (snd (resendOTP lib w rreq st))"
    unfolding keys_iff using ids_of_resendOTP[of lib w rreq st] K by metis
  show "unique_ids (snd (submitReport w usr breq st)) \<and> fresh_ids (snd (submitReport w usr breq st))"
    unfolding keys_iff using ids_of_submitReport[of w usr breq st] K by metis
qed

end
